theory Spec2Isabelle
  imports Complex_Main "HOL-Library.Word"
begin

section \<open>Data model (models/models.go, config/config.go)\<close>

text \<open>
  A Go \<open>string\<close> that the code measures in code points (\<open>[]rune(text)\<close>,
  \<open>utf8.RuneCountInString\<close>) is modelled by the sequence of runes those calls yield.
  Identifiers, status values and error codes, which the code only compares and
  concatenates, are \<open>string\<close>s. A Go slice is a list; a \<open>nil\<close> slice and an empty one
  are both \<open>[]\<close> (they agree under \<open>len\<close>, \<open>range\<close>, \<open>append\<close> and the
  \<open>omitempty\<close> tags of the models). Go's \<open>int\<close> is modelled by \<open>int\<close>: the sums and
  products the code forms are offsets into a text (a start below the text length plus a
  chunk size, formed a second time only when the chunk size is below the text length) and
  percentages of a file count, none of which can leave the 64-bit range. The seed of the
  mock generator does wrap and is a 64-bit word.

  Field names follow the source; where two structs share a field name the second one
  carries a prefix (\<open>tc\<close> for \<open>TextChunk\<close>, \<open>Result\<close>, \<open>Job\<close>).
\<close>

type_synonym rune = nat
type_synonym runes = "rune list"
type_synonym bytes = "8 word list"

record Config =
  EmbeddingProvider :: string
  EmbeddingDimension :: int
  MaxChunkSize :: int
  DefaultChunkSize :: int

record InputItem =
  ID :: string
  Text :: runes

record EmbedRequest =
  Model :: string
  Inputs :: "InputItem list"
  TruncateStrategy :: string
  ChunkSize :: int
  Normalize :: bool

record 's Chunk =
  ChunkID :: string
  Start :: int
  End :: int
  TextSnippet :: runes
  Embedding :: "'s list"

record 's EmbedResult =
  ResultID :: string
  Embeddings :: "'s list"
  Chunks :: "'s Chunk list"

record 's EmbedResponse =
  Results :: "'s EmbedResult list"

record Error =
  Code :: string
  Message :: string

record Job =
  JobID :: string
  Status :: string
  Progress :: int
  Files :: "string list"
  JobModel :: string
  ResultURLs :: "string list"
  Error :: "Error option"
  CreatedAt :: int
  UpdatedAt :: int
  CallbackURL :: string

section \<open>Chunker (services/embedding.go, chunkText)\<close>

record TextChunk =
  tcChunkID :: string
  tcText :: runes
  tcStart :: int
  tcEnd :: int

text \<open>The decimal rendering of \<open>%d\<close> for a non-negative index.\<close>

fun show_nat :: "nat \<Rightarrow> string" where
  "show_nat n =
     (if n < 10 then [char_of (48 + n)]
      else show_nat (n div 10) @ [char_of (48 + n mod 10)])"

declare show_nat.simps [simp del]

text \<open>
  The loop of the split strategy,
  \<^verbatim>\<open>for start := 0; start < textLen; start += chunkSize\<close>.
  The slice expression \<^verbatim>\<open>runes[start:end]\<close> panics unless \<open>0 \<le> start \<le> end\<close>; with
  \<open>chunkSize = 0\<close> the loop never ends. Both are the value \<open>None\<close>.
\<close>

partial_function (option) split_loop ::
  "string \<Rightarrow> runes \<Rightarrow> int \<Rightarrow> int \<Rightarrow> nat \<Rightarrow> TextChunk list \<Rightarrow> TextChunk list option" where
  "split_loop docID runes chunkSize start chunkIndex chunks =
     (if start < int (length runes) then
        (let e = (if start + chunkSize > int (length runes) then int (length runes)
                  else start + chunkSize)
         in if start < 0 \<or> e < start then None
            else split_loop docID runes chunkSize (start + chunkSize) (chunkIndex + 1)
                   (chunks @ [\<lparr>tcChunkID = docID @ ''_'' @ show_nat chunkIndex,
                               tcText = take (nat (e - start)) (drop (nat start) runes),
                               tcStart = start, tcEnd = e\<rparr>]))
      else Some chunks)"

declare split_loop.simps [code]

definition chunkText :: "string \<Rightarrow> runes \<Rightarrow> int \<Rightarrow> string \<Rightarrow> TextChunk list option" where
  "chunkText docID text chunkSize strategy =
     (let runes = text; textLen = int (length runes) in
      if strategy = ''truncate'' then
        (let e = (if chunkSize > textLen then textLen else chunkSize)
         in if e < 0 then None
            else Some [\<lparr>tcChunkID = docID @ ''_0'', tcText = take (nat e) runes,
                        tcStart = 0, tcEnd = e\<rparr>])
      else split_loop docID runes chunkSize 0 0 [])"

text \<open>
  The chunk the split strategy produces at index \<open>k\<close>, and the number of chunks, in closed
  form; \<open>split_loop\<close> is compared with them below.
\<close>

definition split_chunk :: "string \<Rightarrow> runes \<Rightarrow> int \<Rightarrow> nat \<Rightarrow> TextChunk" where
  "split_chunk docID runes chunkSize k =
     \<lparr>tcChunkID = docID @ ''_'' @ show_nat k,
      tcText = take (nat (min (int k * chunkSize + chunkSize) (int (length runes)) - int k * chunkSize))
                 (drop (nat (int k * chunkSize)) runes),
      tcStart = int k * chunkSize,
      tcEnd = min (int k * chunkSize + chunkSize) (int (length runes))\<rparr>"

definition chunk_count :: "runes \<Rightarrow> int \<Rightarrow> nat" where
  "chunk_count runes chunkSize = (length runes + nat chunkSize - 1) div nat chunkSize"

section \<open>Vector generator (services/embedding.go)\<close>

text \<open>
  Floating-point arithmetic, the pseudo-random generator of \<open>math/rand\<close> and the HTTP call
  to the remote backend are not part of the repository. They are parameters: \<open>'s\<close> is
  \<open>float32\<close>, \<open>'d\<close> is \<open>float64\<close>, \<open>rand_Float32 seed i\<close> is the \<open>i\<close>-th value drawn
  from \<^verbatim>\<open>rand.New(rand.NewSource(seed))\<close>, and \<open>ollamaEmbedding text\<close> is the outcome of the
  source function of that name (\<open>Inl\<close> the error, \<open>Inr\<close> the decoded \<open>embedding\<close> array,
  of whatever length the remote sent).
\<close>

record ('s, 'd) host =
  f32_mul :: "'s \<Rightarrow> 's \<Rightarrow> 's"
  f32_sub :: "'s \<Rightarrow> 's \<Rightarrow> 's"
  f32_one :: 's
  f32_two :: 's
  f32_of_f64 :: "'d \<Rightarrow> 's"
  f64_of_f32 :: "'s \<Rightarrow> 'd"
  f64_zero :: 'd
  f64_add :: "'d \<Rightarrow> 'd \<Rightarrow> 'd"
  f64_div :: "'d \<Rightarrow> 'd \<Rightarrow> 'd"
  f64_sqrt :: "'d \<Rightarrow> 'd"
  f64_eq :: "'d \<Rightarrow> 'd \<Rightarrow> bool"
  rand_Float32 :: "64 word \<Rightarrow> nat \<Rightarrow> 's"
  ollamaEmbedding :: "runes \<Rightarrow> string + 's list"

text \<open>The first loop of \<open>normalizeL2\<close>: \<^verbatim>\<open>sumSq += float64(v * v)\<close>.\<close>

definition sumSq :: "('s, 'd) host \<Rightarrow> 's list \<Rightarrow> 'd" where
  "sumSq h vec = foldl (\<lambda>acc v. f64_add h acc (f64_of_f32 h (f32_mul h v v))) (f64_zero h) vec"

definition normalizeL2 :: "('s, 'd) host \<Rightarrow> 's list \<Rightarrow> 's list" where
  "normalizeL2 h vec =
     (let norm = f64_sqrt h (sumSq h vec) in
      if f64_eq h norm (f64_zero h) then vec
      else map (\<lambda>v. f32_of_f64 h (f64_div h (f64_of_f32 h v) norm)) vec)"

text \<open>
  \<open>mockEmbedding\<close>: the seed is an \<open>int64\<close> and wraps; \<^verbatim>\<open>make([]float32, dimension)\<close>
  panics on a negative length (\<open>None\<close>).
\<close>

definition mockEmbedding :: "('s, 'd) host \<Rightarrow> runes \<Rightarrow> int \<Rightarrow> bool \<Rightarrow> 's list option" where
  "mockEmbedding h text dimension normalizeOn =
     (let seed = foldl (\<lambda>seed r. seed * 31 + of_nat r) (0 :: 64 word) text in
      if dimension < 0 then None
      else
        (let embedding =
               map (\<lambda>i. f32_sub h (f32_mul h (rand_Float32 h seed i) (f32_two h)) (f32_one h))
                 [0..<nat dimension]
         in Some (if normalizeOn then normalizeL2 h embedding else embedding)))"

definition generateEmbedding ::
  "('s, 'd) host \<Rightarrow> Config \<Rightarrow> runes \<Rightarrow> bool \<Rightarrow> 's list option" where
  "generateEmbedding h cfg text normalizeOn =
     (let dimension = EmbeddingDimension cfg in
      if EmbeddingProvider cfg = ''ollama'' then
        (case ollamaEmbedding h text of
           Inl err \<Rightarrow> mockEmbedding h text dimension normalizeOn
         | Inr emb \<Rightarrow> Some (if normalizeOn then normalizeL2 h emb else emb))
      else if EmbeddingProvider cfg = ''openai'' then mockEmbedding h text dimension normalizeOn
      else mockEmbedding h text dimension normalizeOn)"

section \<open>Embedding pipeline (services/embedding.go, GenerateEmbeddings)\<close>

definition truncateSnippet :: "runes \<Rightarrow> int \<Rightarrow> runes" where
  "truncateSnippet text maxLen =
     (if int (length text) \<le> maxLen then text else take (nat maxLen) text @ [46, 46, 46])"

definition effectiveChunkSize :: "Config \<Rightarrow> EmbedRequest \<Rightarrow> int" where
  "effectiveChunkSize cfg req =
     (let chunkSize = ChunkSize req;
          chunkSize = (if chunkSize \<le> 0 then DefaultChunkSize cfg else chunkSize)
      in if chunkSize > MaxChunkSize cfg then MaxChunkSize cfg else chunkSize)"

definition effectiveStrategy :: "EmbedRequest \<Rightarrow> string" where
  "effectiveStrategy req =
     (if TruncateStrategy req = [] then ''truncate'' else TruncateStrategy req)"

text \<open>The inner loop over the chunks of one input.\<close>

fun embedChunks ::
  "('s, 'd) host \<Rightarrow> Config \<Rightarrow> bool \<Rightarrow> TextChunk list \<Rightarrow> 's Chunk list option" where
  "embedChunks h cfg normalizeOn [] = Some []"
| "embedChunks h cfg normalizeOn (chunk # rest) =
     (case generateEmbedding h cfg (tcText chunk) normalizeOn of
        None \<Rightarrow> None
      | Some embedding \<Rightarrow>
          (case embedChunks h cfg normalizeOn rest of
             None \<Rightarrow> None
           | Some cs \<Rightarrow>
               Some (\<lparr>ChunkID = tcChunkID chunk, Start = tcStart chunk, End = tcEnd chunk,
                      TextSnippet = truncateSnippet (tcText chunk) 200,
                      Embedding = embedding\<rparr> # cs)))"

text \<open>The body of the loop over the inputs: one \<open>EmbedResult\<close>.\<close>

definition embedInput ::
  "('s, 'd) host \<Rightarrow> Config \<Rightarrow> int \<Rightarrow> string \<Rightarrow> bool \<Rightarrow> InputItem \<Rightarrow> 's EmbedResult option" where
  "embedInput h cfg chunkSize truncateStrategy normalizeOn input =
     (let textLen = int (length (Text input)) in
      if textLen \<le> chunkSize then
        (case generateEmbedding h cfg (Text input) normalizeOn of
           None \<Rightarrow> None
         | Some embedding \<Rightarrow>
             Some \<lparr>ResultID = ID input, Embeddings = embedding, Chunks = []\<rparr>)
      else
        (case chunkText (ID input) (Text input) chunkSize truncateStrategy of
           None \<Rightarrow> None
         | Some chunks \<Rightarrow>
             (case embedChunks h cfg normalizeOn chunks of
                None \<Rightarrow> None
              | Some cs \<Rightarrow> Some \<lparr>ResultID = ID input, Embeddings = [], Chunks = cs\<rparr>)))"

fun embedInputs ::
  "('s, 'd) host \<Rightarrow> Config \<Rightarrow> int \<Rightarrow> string \<Rightarrow> bool \<Rightarrow> InputItem list
     \<Rightarrow> 's EmbedResult list option" where
  "embedInputs h cfg chunkSize truncateStrategy normalizeOn [] = Some []"
| "embedInputs h cfg chunkSize truncateStrategy normalizeOn (input # rest) =
     (case embedInput h cfg chunkSize truncateStrategy normalizeOn input of
        None \<Rightarrow> None
      | Some result \<Rightarrow>
          (case embedInputs h cfg chunkSize truncateStrategy normalizeOn rest of
             None \<Rightarrow> None
           | Some results \<Rightarrow> Some (result # results)))"

text \<open>
  The Go function returns \<open>(*EmbedResponse, error)\<close>: \<open>Some (Inr resp)\<close> is the return of
  \<open>resp\<close> with a nil error, \<open>Some (Inl msg)\<close> the return of a non-nil error, and \<open>None\<close>
  a call that does not return (a panic, or the endless split loop).
\<close>

definition GenerateEmbeddings ::
  "('s, 'd) host \<Rightarrow> Config \<Rightarrow> EmbedRequest \<Rightarrow> (string + 's EmbedResponse) option" where
  "GenerateEmbeddings h cfg req =
     (case embedInputs h cfg (effectiveChunkSize cfg req) (effectiveStrategy req)
             (Normalize req) (Inputs req) of
        None \<Rightarrow> None
      | Some results \<Rightarrow> Some (Inr \<lparr>Results = results\<rparr>))"

section \<open>Job registry (services/jobstore.go)\<close>

text \<open>
  The registry maps job ids to job records. \<open>uuid.New()\<close> and the readings of
  \<open>time.Now().Unix()\<close> are parameters. The Go map holds pointers and \<open>GetJob\<close> hands
  the stored pointer to the worker; the model records the registry at the calls of
  \<open>CreateJob\<close> and \<open>UpdateJob\<close>, where the lock is taken and the record is stored.
\<close>

type_synonym JobStore = "string \<rightharpoonup> Job"

definition CreateJob ::
  "string \<Rightarrow> int \<Rightarrow> int \<Rightarrow> JobStore \<Rightarrow> string list \<Rightarrow> string \<Rightarrow> string \<Rightarrow> Job \<times> JobStore" where
  "CreateJob uuid createdAt updatedAt s files model callbackURL =
     (let job = \<lparr>JobID = uuid, Status = ''queued'', Progress = 0, Files = files,
                  JobModel = model, ResultURLs = [], Error = None, CreatedAt = createdAt,
                  UpdatedAt = updatedAt, CallbackURL = callbackURL\<rparr>
      in (job, s(JobID job \<mapsto> job)))"

definition GetJob :: "JobStore \<Rightarrow> string \<Rightarrow> Job option" where
  "GetJob s jobID = s jobID"

definition UpdateJob :: "int \<Rightarrow> JobStore \<Rightarrow> Job \<Rightarrow> Job \<times> JobStore" where
  "UpdateJob now s job = (let job = job\<lparr>UpdatedAt := now\<rparr> in (job, s(JobID job \<mapsto> job)))"

section \<open>Worker (processJob, sendCallback)\<close>

text \<open>
  What \<open>processJob\<close> calls is gathered in a record: the configuration, \<open>downloadFile\<close>
  (file system and network: \<open>Inl\<close> the error, \<open>Inr\<close> the content and the file name),
  the two methods of the embedding service (\<open>extractText\<close> for \<open>ExtractTextFromFile\<close>,
  \<open>embed\<close> for \<open>GenerateEmbeddings\<close>), \<open>saveResults\<close> (file system: \<open>Inl\<close> the error,
  \<open>Inr\<close> the result path) and the clock, read at the \<open>n\<close>-th event of the run. A run is
  observed through its events, in order: the calls of the collaborators, every record
  handed to \<open>UpdateJob\<close>, every call of \<open>sendCallback\<close> and the POST it makes.
  \<open>Abort\<close> marks a call of the embedding service that does not return.
\<close>

record 's Worker =
  config :: Config
  downloadFile :: "string \<Rightarrow> string + bytes \<times> string"
  extractText :: "string \<Rightarrow> bytes \<Rightarrow> string + runes"
  embed :: "EmbedRequest \<Rightarrow> (string + 's EmbedResponse) option"
  saveResults :: "string \<Rightarrow> 's EmbedResponse list \<Rightarrow> string + string"
  clock :: "nat \<Rightarrow> int"

text \<open>The worker as \<open>main\<close> builds it: its embedding service is the one defined above.\<close>

definition NewWorker ::
  "('s, 'd) host \<Rightarrow> Config \<Rightarrow> (string \<Rightarrow> string + bytes \<times> string)
     \<Rightarrow> (string \<Rightarrow> bytes \<Rightarrow> string + runes)
     \<Rightarrow> (string \<Rightarrow> 's EmbedResponse list \<Rightarrow> string + string) \<Rightarrow> (nat \<Rightarrow> int) \<Rightarrow> 's Worker" where
  "NewWorker h cfg download extract save clk =
     \<lparr>config = cfg, downloadFile = download, extractText = extract,
      embed = GenerateEmbeddings h cfg, saveResults = save, clock = clk\<rparr>"

datatype 's event =
    Download string
  | Extract string
  | Embed EmbedRequest
  | Update Job
  | Save string "'s EmbedResponse list"
  | Callback Job
  | Post string string string "string list" "Error option"
  | Abort

record 's run =
  store :: JobStore
  trace :: "'s event list"

definition emit :: "'s event \<Rightarrow> 's run \<Rightarrow> 's run" where
  "emit e st = st\<lparr>trace := trace st @ [e]\<rparr>"

text \<open>\<^verbatim>\<open>w.jobStore.UpdateJob(job)\<close>; the stamped record is the worker's from then on.\<close>

definition writeBack :: "'s Worker \<Rightarrow> Job \<Rightarrow> 's run \<Rightarrow> Job \<times> 's run" where
  "writeBack w job st =
     (let (job, s) = UpdateJob (clock w (length (trace st))) (store st) job
      in (job, \<lparr>store = s, trace = trace st @ [Update job]\<rparr>))"

text \<open>
  \<open>sendCallback\<close>: nothing is sent without a callback URL; otherwise one POST of the job
  id, the status, the result URLs and the error, whose outcome is only logged.
\<close>

definition sendCallback :: "Job \<Rightarrow> 's run \<Rightarrow> 's run" where
  "sendCallback job st =
     (let st = emit (Callback job) st in
      if CallbackURL job = [] then st
      else emit (Post (CallbackURL job) (JobID job) (Status job) (ResultURLs job) (Error job)) st)"

text \<open>
  The block the source repeats at each of its four failure exits: set the status and the
  error, write back, send the callback, return.
\<close>

definition failJob :: "'s Worker \<Rightarrow> Job \<Rightarrow> string \<Rightarrow> string \<Rightarrow> 's run \<Rightarrow> 's run" where
  "failJob w job code err st =
     (let job = job\<lparr>Status := ''failed'', Error := Some \<lparr>Code = code, Message = err\<rparr>\<rparr>;
          (job, st) = writeBack w job st
      in sendCallback job st)"

text \<open>The request built for one file (lines 115 to 121).\<close>

definition jobRequest :: "'s Worker \<Rightarrow> string \<Rightarrow> string \<Rightarrow> runes \<Rightarrow> EmbedRequest" where
  "jobRequest w model filename text =
     \<lparr>Model = model, Inputs = [\<lparr>ID = filename, Text = text\<rparr>], TruncateStrategy = ''split'',
      ChunkSize = DefaultChunkSize (config w), Normalize = True\<rparr>"

text \<open>
  The loop over the files. \<open>Inl\<close> is a return from inside the loop, \<open>Inr\<close> the state in
  which the loop ends: the results, the job and the run.
\<close>

fun fileLoop ::
  "'s Worker \<Rightarrow> int \<Rightarrow> int \<Rightarrow> string list \<Rightarrow> 's EmbedResponse list \<Rightarrow> Job \<Rightarrow> 's run
     \<Rightarrow> 's run + 's EmbedResponse list \<times> Job \<times> 's run" where
  "fileLoop w totalFiles i [] results job st = Inr (results, job, st)"
| "fileLoop w totalFiles i (fileURL # rest) results job st =
     (let st = emit (Download fileURL) st in
      case downloadFile w fileURL of
        Inl err \<Rightarrow> Inl (failJob w job ''download_failed'' err st)
      | Inr (content, filename) \<Rightarrow>
          (let st = emit (Extract filename) st in
           case extractText w filename content of
             Inl err \<Rightarrow> Inl (failJob w job ''extraction_failed'' err st)
           | Inr text \<Rightarrow>
               (let req = jobRequest w (JobModel job) filename text;
                    st = emit (Embed req) st
                in case embed w req of
                     None \<Rightarrow> Inl (emit Abort st)
                   | Some (Inl err) \<Rightarrow> Inl (failJob w job ''embedding_failed'' err st)
                   | Some (Inr resp) \<Rightarrow>
                       (let job = job\<lparr>Progress := ((i + 1) * 100) div totalFiles\<rparr>;
                            (job, st) = writeBack w job st
                        in fileLoop w totalFiles (i + 1) rest (results @ [resp]) job st))))"

definition processJob :: "'s Worker \<Rightarrow> string \<Rightarrow> 's run \<Rightarrow> 's run" where
  "processJob w jobID st =
     (case GetJob (store st) jobID of
        None \<Rightarrow> st
      | Some job \<Rightarrow>
          (let job = job\<lparr>Status := ''running'', Progress := 0\<rparr>;
               (job, st) = writeBack w job st;
               totalFiles = int (length (Files job))
           in case fileLoop w totalFiles 0 (Files job) [] job st of
                Inl st \<Rightarrow> st
              | Inr (results, job, st) \<Rightarrow>
                  (let st = emit (Save (JobID job) results) st in
                   case saveResults w (JobID job) results of
                     Inl err \<Rightarrow> failJob w job ''storage_failed'' err st
                   | Inr resultPath \<Rightarrow>
                       (let job = job\<lparr>Status := ''completed'', Progress := 100,
                                       ResultURLs := [resultPath]\<rparr>;
                            (job, st) = writeBack w job st
                        in sendCallback job st))))"

text \<open>What a run shows of each kind of event, in order.\<close>

fun updates :: "'s event list \<Rightarrow> Job list" where
  "updates [] = []"
| "updates (Update job # es) = job # updates es"
| "updates (e # es) = updates es"

fun downloads :: "'s event list \<Rightarrow> string list" where
  "downloads [] = []"
| "downloads (Download fileURL # es) = fileURL # downloads es"
| "downloads (e # es) = downloads es"

fun callbacks :: "'s event list \<Rightarrow> Job list" where
  "callbacks [] = []"
| "callbacks (Callback job # es) = job # callbacks es"
| "callbacks (e # es) = callbacks es"

fun saves :: "'s event list \<Rightarrow> (string \<times> 's EmbedResponse list) list" where
  "saves [] = []"
| "saves (Save jobID results # es) = (jobID, results) # saves es"
| "saves (e # es) = saves es"

section \<open>Vocabulary for the statements about a run\<close>

text \<open>
  How one file fares, read off the worker's collaborators: it succeeds when it is
  downloaded, its text is extracted and the embedding service returns a response; it
  fails with a stage code and the error's message when one of the three returns an error;
  it aborts when the embedding service does not return.
\<close>

definition fileSucceeds :: "'s Worker \<Rightarrow> string \<Rightarrow> string \<Rightarrow> bool" where
  "fileSucceeds w model fileURL =
     (case downloadFile w fileURL of
        Inl err \<Rightarrow> False
      | Inr (content, filename) \<Rightarrow>
          (case extractText w filename content of
             Inl err \<Rightarrow> False
           | Inr text \<Rightarrow>
               (case embed w (jobRequest w model filename text) of
                  Some (Inr resp) \<Rightarrow> True
                | _ \<Rightarrow> False)))"

definition fileFailure :: "'s Worker \<Rightarrow> string \<Rightarrow> string \<Rightarrow> (string \<times> string) option" where
  "fileFailure w model fileURL =
     (case downloadFile w fileURL of
        Inl err \<Rightarrow> Some (''download_failed'', err)
      | Inr (content, filename) \<Rightarrow>
          (case extractText w filename content of
             Inl err \<Rightarrow> Some (''extraction_failed'', err)
           | Inr text \<Rightarrow>
               (case embed w (jobRequest w model filename text) of
                  Some (Inl err) \<Rightarrow> Some (''embedding_failed'', err)
                | _ \<Rightarrow> None)))"

definition fileAborts :: "'s Worker \<Rightarrow> string \<Rightarrow> string \<Rightarrow> bool" where
  "fileAborts w model fileURL =
     (case downloadFile w fileURL of
        Inl err \<Rightarrow> False
      | Inr (content, filename) \<Rightarrow>
          (case extractText w filename content of
             Inl err \<Rightarrow> False
           | Inr text \<Rightarrow> embed w (jobRequest w model filename text) = None))"

text \<open>
  The job as \<open>processJob\<close> first writes it, the job a failure exit writes, the POST events
  of \<open>sendCallback\<close>, and the record \<open>CreateJob\<close> stores.
\<close>

definition started :: "'s Worker \<Rightarrow> Job \<Rightarrow> Job" where
  "started w job = job\<lparr>Status := ''running'', Progress := 0, UpdatedAt := clock w 0\<rparr>"

definition failed :: "Job \<Rightarrow> string \<Rightarrow> string \<Rightarrow> int \<Rightarrow> Job" where
  "failed job code err now =
     job\<lparr>Status := ''failed'', Error := Some \<lparr>Code = code, Message = err\<rparr>, UpdatedAt := now\<rparr>"

definition posts :: "Job \<Rightarrow> 's event list" where
  "posts job =
     (if CallbackURL job = [] then []
      else [Post (CallbackURL job) (JobID job) (Status job) (ResultURLs job) (Error job)])"

definition created :: "string \<Rightarrow> int \<Rightarrow> int \<Rightarrow> string list \<Rightarrow> string \<Rightarrow> string \<Rightarrow> Job" where
  "created uuid createdAt updatedAt files model callbackURL =
     \<lparr>JobID = uuid, Status = ''queued'', Progress = 0, Files = files,
      JobModel = model, ResultURLs = [], Error = None, CreatedAt = createdAt,
      UpdatedAt = updatedAt, CallbackURL = callbackURL\<rparr>"

text \<open>
  The progress values the loop writes after file \<open>i+1\<close>, \<open>i+2\<close>, ... of \<open>n\<close>, for \<open>m\<close>
  files; and the ways a run can end after \<open>m\<close> files were processed: the embedding
  service did not return, a stage failed, saving failed, or the job completed.
\<close>

fun progress_from :: "int \<Rightarrow> int \<Rightarrow> nat \<Rightarrow> int list" where
  "progress_from n i 0 = []"
| "progress_from n i (Suc m) = ((i + 1) * 100) div n # progress_from n (i + 1) m"

definition runEnds :: "'s Worker \<Rightarrow> Job \<Rightarrow> nat \<Rightarrow> Job list \<Rightarrow> bool" where
  "runEnds w job0 m tail \<longleftrightarrow>
     (tail = [] \<and> m < length (Files job0)
        \<or> (\<exists>jf code err. tail = [jf] \<and> m < length (Files job0) \<and> Status jf = ''failed''
               \<and> Error jf = Some \<lparr>Code = code, Message = err\<rparr>
               \<and> (code = ''download_failed'' \<or> code = ''extraction_failed''
                    \<or> code = ''embedding_failed'' \<and> (\<exists>req. embed w req = Some (Inl err)))
               \<and> ResultURLs jf = ResultURLs job0 \<and> JobID jf = JobID job0
               \<and> Progress jf = last (0 # progress_from (int (length (Files job0))) 0 m))
        \<or> (\<exists>jf err. tail = [jf] \<and> m = length (Files job0) \<and> Status jf = ''failed''
               \<and> Error jf = Some \<lparr>Code = ''storage_failed'', Message = err\<rparr>
               \<and> ResultURLs jf = ResultURLs job0 \<and> JobID jf = JobID job0
               \<and> Progress jf = last (0 # progress_from (int (length (Files job0))) 0 m))
        \<or> (\<exists>jc path. tail = [jc] \<and> m = length (Files job0) \<and> Status jc = ''completed''
               \<and> Error jc = Error job0 \<and> ResultURLs jc = [path] \<and> Progress jc = 100
               \<and> JobID jc = JobID job0))"

text \<open>
  The records stored in the registry over one job's lifetime: the one \<open>CreateJob\<close>
  stores on submission, then every record the run of \<open>processJob\<close> on the new id hands to
  \<open>UpdateJob\<close> (the submission handler creates the job and enqueues its id once).
\<close>

definition registryWrites ::
  "'s Worker \<Rightarrow> string \<Rightarrow> int \<Rightarrow> int \<Rightarrow> JobStore \<Rightarrow> string list \<Rightarrow> string \<Rightarrow> string \<Rightarrow> Job list" where
  "registryWrites w uuid createdAt updatedAt s files model callbackURL =
     (let (job, s) = CreateJob uuid createdAt updatedAt s files model callbackURL
      in job # updates (trace (processJob w (JobID job) \<lparr>store = s, trace = []\<rparr>)))"

text \<open>
  What the spec promises of a run that fails at a stage: the registry holds the job as
  failed with the stage's code and the error's message, that record is the last one
  written, the callback dispatcher was called once and with that record, the files
  attempted are exactly the given ones, and nothing was saved.
\<close>

definition abortedWith :: "'s run \<Rightarrow> string \<Rightarrow> string list \<Rightarrow> string \<Rightarrow> string \<Rightarrow> bool" where
  "abortedWith st jobID attempted code err =
     (case store st jobID of
        None \<Rightarrow> False
      | Some job \<Rightarrow>
          Status job = ''failed'' \<and> Error job = Some \<lparr>Code = code, Message = err\<rparr>
          \<and> updates (trace st) \<noteq> [] \<and> last (updates (trace st)) = job
          \<and> callbacks (trace st) = [job]
          \<and> downloads (trace st) = attempted
          \<and> saves (trace st) = [])"

section \<open>Concrete instances\<close>

text \<open>
  An instance of the numeric parameters over the reals, with a generator whose every draw
  is 0 and a given remote backend; a remote that is down, one that answers with a
  two-component vector and one that answers with an empty array; a configuration with
  dimension 3 and the default size limits and one with dimension 0; a request with a
  five-rune and a two-rune input and chunk size 2, and one with the two-rune input alone
  and no chunk size. The theorems below are evaluated at these.
\<close>

definition real_host :: "(runes \<Rightarrow> string + real list) \<Rightarrow> (real, real) host" where
  "real_host remote =
     \<lparr>f32_mul = (*), f32_sub = (-), f32_one = 1, f32_two = 2,
      f32_of_f64 = id, f64_of_f32 = id, f64_zero = 0, f64_add = (+), f64_div = (/),
      f64_sqrt = sqrt, f64_eq = (=), rand_Float32 = (\<lambda>seed i. 0), ollamaEmbedding = remote\<rparr>"

definition remote_down :: "runes \<Rightarrow> string + real list" where
  "remote_down text = Inl ''failed to call Ollama''"

definition remote_two :: "runes \<Rightarrow> string + real list" where
  "remote_two text = Inr [1, 2]"


definition demo_config :: "string \<Rightarrow> Config" where
  "demo_config provider =
     \<lparr>EmbeddingProvider = provider, EmbeddingDimension = 3, MaxChunkSize = 8000,
      DefaultChunkSize = 1000\<rparr>"



definition demo_request :: "string \<Rightarrow> EmbedRequest" where
  "demo_request strategy =
     \<lparr>Model = ''embed-large-512'', Inputs = [\<lparr>ID = ''doc1'', Text = [104, 101, 108, 108, 111]\<rparr>,
                \<lparr>ID = ''doc2'', Text = [104, 105]\<rparr>],
      TruncateStrategy = strategy, ChunkSize = 2, Normalize = False\<rparr>"

text \<open>
  A worker over these: \<open>/data/a.txt\<close> downloads and extracts, \<open>/data/b.exe\<close> downloads
  but is of an unsupported type, every other path is missing; results are saved under the
  job id. Two variants: one whose embedding service returns an error, one whose disk is
  full. A job with id \<open>job-1\<close> created in an empty registry.
\<close>

definition demo_download :: "string \<Rightarrow> string + bytes \<times> string" where
  "demo_download url =
     (if url = ''/data/a.txt'' then Inr ([104, 105], ''a.txt'')
      else if url = ''/data/b.exe'' then Inr ([77, 90], ''b.exe'')
      else Inl ''no such file'')"

definition demo_extract :: "string \<Rightarrow> bytes \<Rightarrow> string + runes" where
  "demo_extract filename content =
     (if filename = ''a.txt'' then Inr (map unat content)
      else Inl (''unsupported file type: '' @ filename))"

definition demo_save :: "string \<Rightarrow> real EmbedResponse list \<Rightarrow> string + string" where
  "demo_save jobID results = Inr (''/v1/results/'' @ jobID @ ''_results.json'')"

definition demo_clock :: "nat \<Rightarrow> int" where
  "demo_clock n = 1700000000 + int n"

definition demo_worker :: "real Worker" where
  "demo_worker =
     NewWorker (real_host remote_down) (demo_config ''mock'') demo_download demo_extract
       demo_save demo_clock"

definition embed_unavailable :: "EmbedRequest \<Rightarrow> (string + real EmbedResponse) option" where
  "embed_unavailable req = Some (Inl ''model unavailable'')"

definition faulty_worker :: "real Worker" where
  "faulty_worker = demo_worker\<lparr>embed := embed_unavailable\<rparr>"

definition save_disk_full :: "string \<Rightarrow> real EmbedResponse list \<Rightarrow> string + string" where
  "save_disk_full jobID results = Inl ''no space left on device''"

definition full_disk_worker :: "real Worker" where
  "full_disk_worker = demo_worker\<lparr>saveResults := save_disk_full\<rparr>"

definition demo_registry :: JobStore where
  "demo_registry = Map.empty"

definition demo_job :: "string list \<Rightarrow> Job" where
  "demo_job files =
     fst (CreateJob ''job-1'' 1700000000 1700000000 demo_registry files ''embed-large-512'' [])"

definition demo_store :: "string list \<Rightarrow> JobStore" where
  "demo_store files =
     snd (CreateJob ''job-1'' 1700000000 1700000000 demo_registry files ''embed-large-512'' [])"

section \<open>The split strategy covers the text (C3)\<close>
lemma nat_count_iff: "0 < c \<Longrightarrow> (i * c < L) \<longleftrightarrow> (i < (L + c - 1) div c)" for c i L :: nat
proof -
  assume c: "0 < c"
  have "(i < (L + c - 1) div c) \<longleftrightarrow> (Suc i \<le> (L + c - 1) div c)" by auto
  also have "\<dots> \<longleftrightarrow> (Suc i * c \<le> L + c - 1)"
    using c by (simp only: less_eq_div_iff_mult_less_eq)
  also have "\<dots> \<longleftrightarrow> (i * c < L)" using c by auto
  finally show ?thesis by simp
qed

lemma ceil_div_int:
  fixes L cs :: int
  assumes "0 < cs"
  shows "(L + cs - 1) div cs = (if L mod cs = 0 then L div cs else L div cs + 1)"
proof (cases "L mod cs = 0")
  case True
  have "L + cs - 1 = cs * (L div cs) + (cs - 1)"
    using mult_div_mod_eq [of cs L] True by simp
  then have "(L + cs - 1) div cs = L div cs"
    using assms by (intro int_div_pos_eq [where r = "cs - 1"]) auto
  with True show ?thesis by simp
next
  case False
  then have pos: "0 < L mod cs" using assms
    by (metis less_le pos_mod_sign)
  have "L + cs - 1 = cs * (L div cs + 1) + (L mod cs - 1)"
    using mult_div_mod_eq [of cs L] by (simp add: algebra_simps)
  then have "(L + cs - 1) div cs = L div cs + 1"
    using assms pos pos_mod_bound [OF assms, of L] by (intro int_div_pos_eq [where r = "L mod cs - 1"]) auto
  with False show ?thesis by simp
qed

lemma ceiling_chunks:
  fixes L cs :: int
  assumes "0 < cs"
  shows "\<lceil>real_of_int L / real_of_int cs\<rceil> = (L + cs - 1) div cs"
  using assms by (simp add: ceiling_divide_eq_div ceil_div_int zdiv_zminus1_eq_if)


lemma int_count_iff:
  assumes "0 < cs"
  shows "(int i * cs < int (length rs)) \<longleftrightarrow> (i < chunk_count rs cs)"
proof -
  have "int i * cs = int (i * nat cs)" using assms by simp
  then have "(int i * cs < int (length rs)) \<longleftrightarrow> (i * nat cs < length rs)"
    by (simp only: of_nat_less_iff)
  also have "\<dots> \<longleftrightarrow> (i < chunk_count rs cs)"
    unfolding chunk_count_def using assms by (intro nat_count_iff) simp
  finally show ?thesis .
qed

lemma split_loop_run:
  assumes cs: "0 < cs"
  shows "i \<le> chunk_count rs cs \<Longrightarrow>
         split_loop d rs cs (int i * cs) i acc =
           Some (acc @ map (split_chunk d rs cs) [i..<chunk_count rs cs])"
proof (induction "chunk_count rs cs - i" arbitrary: i acc)
  case 0
  then have "\<not> (i < chunk_count rs cs)" by simp
  then have "\<not> (int i * cs < int (length rs))" using int_count_iff [OF cs] by simp
  moreover have "[i..<chunk_count rs cs] = []" using 0 by simp
  ultimately show ?case by (subst split_loop.simps) simp
next
  case (Suc m)
  then have lt: "i < chunk_count rs cs" by simp
  then have in_range: "int i * cs < int (length rs)" using int_count_iff [OF cs] by simp
  have step: "int i * cs + cs = int (Suc i) * cs" by (simp add: algebra_simps)
  have IH: "split_loop d rs cs (int (Suc i) * cs) (Suc i) (acc @ [split_chunk d rs cs i]) =
              Some ((acc @ [split_chunk d rs cs i]) @ map (split_chunk d rs cs) [Suc i..<chunk_count rs cs])"
    using Suc lt by (intro Suc.hyps(1)) auto
  define s where "s = int i * cs"
  have nonneg: "0 \<le> s" and in_range': "s < int (length rs)"
    and next_s: "s + cs = int (Suc i) * cs"
    using cs in_range step by (simp_all add: s_def)
  have chunk: "split_chunk d rs cs i =
      \<lparr>tcChunkID = d @ ''_'' @ show_nat i,
       tcText = take (nat (min (s + cs) (int (length rs)) - s)) (drop (nat s) rs),
       tcStart = s, tcEnd = min (s + cs) (int (length rs))\<rparr>"
    by (simp add: split_chunk_def s_def)
  have "split_loop d rs cs s i acc =
          split_loop d rs cs (s + cs) (Suc i) (acc @ [split_chunk d rs cs i])"
    using in_range' cs nonneg
    by (subst split_loop.simps) (simp add: Let_def chunk min_def)
  then have "split_loop d rs cs (int i * cs) i acc =
          split_loop d rs cs (int (Suc i) * cs) (Suc i) (acc @ [split_chunk d rs cs i])"
    by (simp only: next_s) (simp only: s_def)
  also note IH
  finally show ?case using lt by (simp add: upt_conv_Cons)
qed

lemma chunkText_split_eq:
  assumes "0 < cs"
  shows "chunkText d T cs ''split'' = Some (map (split_chunk d T cs) [0..<chunk_count T cs])"
  using split_loop_run [OF assms, of 0 T d "[]"] by (simp add: chunkText_def)


lemma take_clamped:
  "take (nat (min (int a + int c) (int (length xs)) - int a)) (drop a xs) = take c (drop a xs)"
proof (cases "a + c \<le> length xs")
  case True
  then have "min (int a + int c) (int (length xs)) = int (a + c)" by simp
  then show ?thesis by simp
next
  case False
  then have "min (int a + int c) (int (length xs)) = int (length xs)" by simp
  moreover have "length (drop a xs) \<le> c" using False by simp
  moreover have "length (drop a xs) \<le> nat (int (length xs) - int a)" by simp
  ultimately show ?thesis by simp
qed

lemma split_chunk_text:
  assumes "0 < cs"
  shows "tcText (split_chunk d T cs i) = take (nat cs) (drop (i * nat cs) T)"
proof -
  obtain c where c: "cs = int c" using assms by (metis nat_0_le less_imp_le)
  have "int i * int c = int (i * c)" by simp
  then show ?thesis
    using take_clamped [of "i * c" c T] by (simp add: split_chunk_def c del: of_nat_mult)
qed

lemma split_chunks_concat:
  assumes cs: "0 < cs"
  shows "i \<le> chunk_count T cs \<Longrightarrow>
         concat (map (\<lambda>k. tcText (split_chunk d T cs k)) [i..<chunk_count T cs]) = drop (i * nat cs) T"
proof (induction "chunk_count T cs - i" arbitrary: i)
  case 0
  then have "\<not> (i < chunk_count T cs)" by simp
  then have "\<not> (i * nat cs < length T)"
    using nat_count_iff [of "nat cs" i "length T"] cs by (simp add: chunk_count_def)
  with 0 show ?case by simp
next
  case (Suc m)
  then have lt: "i < chunk_count T cs" by simp
  have "concat (map (\<lambda>k. tcText (split_chunk d T cs k)) [Suc i..<chunk_count T cs])
          = drop (Suc i * nat cs) T"
    using Suc lt by (intro Suc.hyps(1)) auto
  moreover have "drop (Suc i * nat cs) T = drop (nat cs) (drop (i * nat cs) T)"
    by (simp add: add.commute)
  ultimately have "concat (map (\<lambda>k. tcText (split_chunk d T cs k)) [Suc i..<chunk_count T cs])
          = drop (nat cs) (drop (i * nat cs) T)"
    by (simp only:)
  then have "concat (map (\<lambda>k. tcText (split_chunk d T cs k)) (i # [Suc i..<chunk_count T cs]))
          = take (nat cs) (drop (i * nat cs) T) @ drop (nat cs) (drop (i * nat cs) T)"
    by (simp only: list.map concat.simps split_chunk_text [OF cs])
  then show ?case using lt by (simp only: upt_conv_Cons append_take_drop_id)
qed

lemma split_chunk_end:
  assumes cs: "0 < cs" and i: "i < chunk_count T cs"
  shows "tcEnd (split_chunk d T cs i) =
           (if Suc i < chunk_count T cs then int (Suc i) * cs else int (length T))"
proof -
  have "int i * cs + cs = int (Suc i) * cs" by (simp add: algebra_simps)
  then show ?thesis
    using int_count_iff [OF cs, of "Suc i" T] by (auto simp: split_chunk_def min_def)
qed

text \<open>
  C3. For every text \<open>T\<close> and every \<open>chunkSize > 0\<close>, \<open>chunkText\<close> with strategy
  "split" returns, and returns exactly \<open>\<lceil>len(T) / chunkSize\<rceil>\<close> chunks. Chunk \<open>i\<close> starts
  at \<open>i * chunkSize\<close> (so the first starts at 0 and starts strictly increase), ends where
  the next one starts, and the last ends at \<open>len(T)\<close>: the ranges are contiguous,
  non-overlapping, non-empty and cover \<open>[0, len(T))\<close>. Every chunk but the last spans
  exactly \<open>chunkSize\<close> code points, the last spans the remainder (at most
  \<open>chunkSize\<close>); each chunk's text is the slice of \<open>T\<close> at its offsets, and the texts
  concatenated give back \<open>T\<close>.
\<close>

theorem chunkText_split_cover:
  assumes cs: "0 < chunkSize"
  shows "\<exists>chunks. chunkText docID T chunkSize ''split'' = Some chunks
     \<and> int (length chunks) = \<lceil>real (length T) / real_of_int chunkSize\<rceil>
     \<and> (\<forall>i < length chunks.
            tcStart (chunks ! i) = int i * chunkSize
          \<and> tcEnd (chunks ! i) =
              (if Suc i < length chunks then tcStart (chunks ! Suc i) else int (length T))
          \<and> tcStart (chunks ! i) < tcEnd (chunks ! i)
          \<and> tcEnd (chunks ! i) - tcStart (chunks ! i) =
              (if Suc i < length chunks then chunkSize
               else int (length T) - int i * chunkSize)
          \<and> tcEnd (chunks ! i) - tcStart (chunks ! i) \<le> chunkSize
          \<and> tcText (chunks ! i) =
              take (nat (tcEnd (chunks ! i) - tcStart (chunks ! i))) (drop (nat (tcStart (chunks ! i))) T))
     \<and> concat (map tcText chunks) = T"
proof -
  let ?n = "chunk_count T chunkSize"
  let ?chunks = "map (split_chunk docID T chunkSize) [0..<?n]"
  have eq: "chunkText docID T chunkSize ''split'' = Some ?chunks"
    by (rule chunkText_split_eq [OF cs])
  have len: "length ?chunks = ?n" by simp
  have count: "int (length ?chunks) = \<lceil>real (length T) / real_of_int chunkSize\<rceil>"
  proof -
    have "\<lceil>real_of_int (int (length T)) / real_of_int chunkSize\<rceil>
            = (int (length T) + chunkSize - 1) div chunkSize"
      by (rule ceiling_chunks [OF cs])
    moreover have "int ?n = (int (length T) + chunkSize - 1) div chunkSize"
      using cs by (simp add: chunk_count_def zdiv_int nat_diff_distrib' of_nat_diff)
    ultimately show ?thesis by simp
  qed
  have each: "tcStart (?chunks ! i) = int i * chunkSize
          \<and> tcEnd (?chunks ! i) =
              (if Suc i < length ?chunks then tcStart (?chunks ! Suc i) else int (length T))
          \<and> tcStart (?chunks ! i) < tcEnd (?chunks ! i)
          \<and> tcEnd (?chunks ! i) - tcStart (?chunks ! i) =
              (if Suc i < length ?chunks then chunkSize
               else int (length T) - int i * chunkSize)
          \<and> tcEnd (?chunks ! i) - tcStart (?chunks ! i) \<le> chunkSize
          \<and> tcText (?chunks ! i) =
              take (nat (tcEnd (?chunks ! i) - tcStart (?chunks ! i))) (drop (nat (tcStart (?chunks ! i))) T)"
    if i: "i < length ?chunks" for i
  proof -
    have i': "i < ?n" using i by simp
    have st: "tcStart (?chunks ! i) = int i * chunkSize"
      using i' by (simp add: split_chunk_def)
    have st': "tcStart (?chunks ! Suc i) = int (Suc i) * chunkSize" if "Suc i < ?n"
      using that by (simp add: split_chunk_def del: of_nat_Suc)
    have en: "tcEnd (?chunks ! i) = (if Suc i < ?n then int (Suc i) * chunkSize else int (length T))"
      using i' split_chunk_end [OF cs i'] by simp
    have in_range: "int i * chunkSize < int (length T)"
      using int_count_iff [OF cs] i' by simp
    have last_le: "int (length T) \<le> int (Suc i) * chunkSize" if "\<not> Suc i < ?n"
      using int_count_iff [OF cs, of "Suc i" T] that by simp
    have step: "int (Suc i) * chunkSize = int i * chunkSize + chunkSize"
      by (simp add: algebra_simps)
    have tx: "tcText (?chunks ! i) =
        take (nat (tcEnd (?chunks ! i) - int i * chunkSize)) (drop (nat (int i * chunkSize)) T)"
      using i' by (simp add: split_chunk_def)
    show ?thesis
    proof (cases "Suc i < ?n")
      case True
      then show ?thesis using st st' [OF True] en tx cs by (simp add: algebra_simps)
    next
      case False
      then show ?thesis using st en tx cs in_range last_le [OF False] by (simp add: algebra_simps)
    qed
  qed
  have cover: "concat (map tcText ?chunks) = T"
    using split_chunks_concat [OF cs, of 0 T docID] by (simp add: comp_def)
  from eq count each cover show ?thesis by blast
qed

theorem chunkText_split_cover_witness:
  "(0 :: int) < 2 \<and>
   (\<exists>chunks. chunkText ''doc'' [104, 101, 108, 108, 111] 2 ''split'' = Some chunks
      \<and> int (length chunks) = 3
      \<and> concat (map tcText chunks) = [104, 101, 108, 108, 111])"
proof -
  have pos: "(0 :: int) < 2" by simp
  have c: "\<lceil>real (length [104, 101, 108, 108, 111 :: nat]) / real_of_int 2\<rceil> = 3"
    by (simp add: ceiling_eq_iff)
  from chunkText_split_cover [OF pos, of "''doc''" "[104, 101, 108, 108, 111]"]
  obtain chunks where
    "chunkText ''doc'' [104, 101, 108, 108, 111] 2 ''split'' = Some chunks"
    "int (length chunks) = \<lceil>real (length [104, 101, 108, 108, 111 :: nat]) / real_of_int 2\<rceil>"
    "concat (map tcText chunks) = [104, 101, 108, 108, 111]"
    by blast
  with pos c show ?thesis by (simp only:) blast
qed

section \<open>Vector generator: length of the result (C6) and the zero norm (C8)\<close>

lemma length_normalizeL2: "length (normalizeL2 h vec) = length vec"
  by (simp add: normalizeL2_def Let_def)

lemma mockEmbedding_length:
  "0 \<le> dimension \<Longrightarrow>
   \<exists>v. mockEmbedding h text dimension n = Some v \<and> int (length v) = dimension"
  by (simp add: mockEmbedding_def Let_def length_normalizeL2)

lemma mockEmbedding_negative: "dimension < 0 \<Longrightarrow> mockEmbedding h text dimension n = None"
  by (simp add: mockEmbedding_def Let_def)

text \<open>
  C6, as the code has it. With a non-negative configured dimension, \<open>generateEmbedding\<close>
  returns a vector of exactly that length whenever the provider is not "ollama" or the
  remote call fails (the mock is used). When the provider is "ollama" and the remote call
  succeeds, the vector returned has the length of the remote's vector, whatever the
  configured dimension is.
\<close>

theorem generateEmbedding_length:
  "((EmbeddingProvider cfg \<noteq> ''ollama'' \<or> (\<exists>err. ollamaEmbedding h text = Inl err)) \<longrightarrow>
      0 \<le> EmbeddingDimension cfg \<longrightarrow>
      (\<exists>v. generateEmbedding h cfg text n = Some v \<and> int (length v) = EmbeddingDimension cfg))
   \<and> (EmbeddingProvider cfg = ''ollama'' \<longrightarrow> ollamaEmbedding h text = Inr emb \<longrightarrow>
      (\<exists>v. generateEmbedding h cfg text n = Some v \<and> length v = length emb))"
  using mockEmbedding_length [of "EmbeddingDimension cfg" h _ n]
  by (auto simp: generateEmbedding_def Let_def length_normalizeL2)

theorem generateEmbedding_length_witness:
  "ollamaEmbedding (real_host remote_down) [104, 105] = Inl ''failed to call Ollama''
   \<and> 0 \<le> EmbeddingDimension (demo_config ''ollama'')
   \<and> (\<exists>v. generateEmbedding (real_host remote_down) (demo_config ''ollama'') [104, 105] True = Some v
          \<and> int (length v) = 3)
   \<and> EmbeddingProvider (demo_config ''ollama'') = ''ollama''
   \<and> ollamaEmbedding (real_host remote_two) [104, 105] = Inr [1, 2]
   \<and> (\<exists>v. generateEmbedding (real_host remote_two) (demo_config ''ollama'') [104, 105] True = Some v
          \<and> length v = length [1, 2 :: real])"
  using generateEmbedding_length [of "demo_config ''ollama''" "real_host remote_down" "[104, 105]" True]
    generateEmbedding_length [of "demo_config ''ollama''" "real_host remote_two" "[104, 105]" True "[1, 2]"]
  by (simp add: real_host_def remote_two_def remote_down_def demo_config_def)

text \<open>
  C6 as stated fails: with provider "ollama", configured dimension 3 and a remote
  that answers with two components, the result has length 2.
\<close>

theorem generateEmbedding_length_counterexample:
  "generateEmbedding (real_host remote_two) (demo_config ''ollama'') [104, 105] False = Some [1, 2]
   \<and> int (length [1, 2 :: real]) \<noteq> EmbeddingDimension (demo_config ''ollama'')"
  by (simp add: generateEmbedding_def real_host_def remote_two_def demo_config_def)

lemma sumSq_zero:
  assumes "f64_add h (f64_zero h) (f64_zero h) = f64_zero h"
    and "\<forall>v\<in>set vec. f64_of_f32 h (f32_mul h v v) = f64_zero h"
  shows "sumSq h vec = f64_zero h"
proof -
  have "foldl (\<lambda>acc v. f64_add h acc (f64_of_f32 h (f32_mul h v v))) (f64_zero h) vec = f64_zero h"
    using assms by (induction vec) simp_all
  then show ?thesis by (simp add: sumSq_def)
qed

text \<open>
  C8. \<open>normalizeL2\<close> returns its argument unchanged whenever the norm it computes compares
  equal to zero: the division is never reached. In particular, in any arithmetic where
  \<open>0 + 0 = 0\<close>, \<open>sqrt 0 = 0\<close> and \<open>0 == 0\<close>, a vector all of whose components square to
  zero (the all-zero vector among them) is returned unchanged.
\<close>

theorem normalizeL2_zero_norm:
  "(f64_eq h (f64_sqrt h (sumSq h vec)) (f64_zero h) \<longrightarrow> normalizeL2 h vec = vec)
   \<and> (f64_add h (f64_zero h) (f64_zero h) = f64_zero h
        \<and> f64_sqrt h (f64_zero h) = f64_zero h
        \<and> f64_eq h (f64_zero h) (f64_zero h)
        \<and> (\<forall>v\<in>set vec. f64_of_f32 h (f32_mul h v v) = f64_zero h)
      \<longrightarrow> normalizeL2 h vec = vec)"
proof (intro conjI impI)
  assume "f64_eq h (f64_sqrt h (sumSq h vec)) (f64_zero h)"
  then show "normalizeL2 h vec = vec" by (simp add: normalizeL2_def)
next
  assume a: "f64_add h (f64_zero h) (f64_zero h) = f64_zero h
        \<and> f64_sqrt h (f64_zero h) = f64_zero h
        \<and> f64_eq h (f64_zero h) (f64_zero h)
        \<and> (\<forall>v\<in>set vec. f64_of_f32 h (f32_mul h v v) = f64_zero h)"
  then have "sumSq h vec = f64_zero h" by (intro sumSq_zero) simp_all
  with a show "normalizeL2 h vec = vec" by (simp add: normalizeL2_def)
qed

theorem normalizeL2_zero_norm_witness:
  "f64_eq (real_host remote_down) (f64_sqrt (real_host remote_down) (sumSq (real_host remote_down) [0, 0, 0]))
      (f64_zero (real_host remote_down))
   \<and> f64_add (real_host remote_down) (f64_zero (real_host remote_down)) (f64_zero (real_host remote_down))
        = f64_zero (real_host remote_down)
   \<and> f64_sqrt (real_host remote_down) (f64_zero (real_host remote_down)) = f64_zero (real_host remote_down)
   \<and> f64_eq (real_host remote_down) (f64_zero (real_host remote_down)) (f64_zero (real_host remote_down))
   \<and> f64_of_f32 (real_host remote_down) (f32_mul (real_host remote_down) 0 0)
        = f64_zero (real_host remote_down)
   \<and> set [0, 0, 0 :: real] = {0}
   \<and> normalizeL2 (real_host remote_down) [0, 0, 0] = [0, 0, 0]"
  using normalizeL2_zero_norm [of "real_host remote_down" "[0, 0, 0]"]
  by (simp add: real_host_def sumSq_def)

section \<open>Embedding pipeline: the truncation strategy (C5)\<close>

lemma embedInput_strategy:
  "s \<noteq> ''truncate'' \<Longrightarrow>
   embedInput h cfg c s n i = embedInput h cfg c ''split'' n i"
  by (simp add: embedInput_def chunkText_def)

lemma embedInputs_strategy:
  "s \<noteq> ''truncate'' \<Longrightarrow>
   embedInputs h cfg c s n is = embedInputs h cfg c ''split'' n is"
proof (induction "is")
  case Nil
  show ?case by simp
next
  case (Cons i "is")
  then show ?case using embedInput_strategy [of s h cfg c n i] by (simp split: option.splits)
qed

text \<open>
  C5, as the code has it. Only the empty strategy defaults to "truncate"; every other
  value that is not the literal "truncate" (the literal "split" and every invalid literal
  alike) makes \<open>GenerateEmbeddings\<close> behave exactly as with "split".
\<close>

theorem GenerateEmbeddings_strategy:
  "(TruncateStrategy req \<noteq> [] \<and> TruncateStrategy req \<noteq> ''truncate'' \<longrightarrow>
      GenerateEmbeddings h cfg req = GenerateEmbeddings h cfg (req\<lparr>TruncateStrategy := ''split''\<rparr>))
   \<and> (TruncateStrategy req = [] \<longrightarrow>
      GenerateEmbeddings h cfg req = GenerateEmbeddings h cfg (req\<lparr>TruncateStrategy := ''truncate''\<rparr>))"
  using embedInputs_strategy [of "TruncateStrategy req" h cfg "effectiveChunkSize cfg req" "Normalize req" "Inputs req"]
  by (simp add: GenerateEmbeddings_def effectiveStrategy_def effectiveChunkSize_def)

lemma demo_request_fields:
  "TruncateStrategy (demo_request s) = s"
  "Inputs (demo_request s) = [\<lparr>ID = ''doc1'', Text = [104, 101, 108, 108, 111]\<rparr>,
                              \<lparr>ID = ''doc2'', Text = [104, 105]\<rparr>]"
  "Normalize (demo_request s) = False"
  "ChunkSize (demo_request s) = 2"
  by (simp_all add: demo_request_def)

lemma demo_effectiveChunkSize: "effectiveChunkSize (demo_config p) (demo_request s) = 2"
  by (simp add: effectiveChunkSize_def demo_config_def demo_request_fields)

lemma demo_vector:
  "generateEmbedding (real_host remote_down) (demo_config ''mock'') t False = Some [-1, -1, -1]"
  by (simp add: generateEmbedding_def mockEmbedding_def demo_config_def real_host_def upt_conv_Cons)

lemma demo_chunks:
  "s \<noteq> ''truncate'' \<Longrightarrow>
   chunkText ''doc1'' [104, 101, 108, 108, 111] 2 s =
     Some (map (split_chunk ''doc1'' [104, 101, 108, 108, 111] 2) [0, 1, 2])"
proof -
  assume s: "s \<noteq> ''truncate''"
  have "[0..<chunk_count [104, 101, 108, 108, 111] 2] = [0, 1, 2]"
    by (simp add: chunk_count_def upt_conv_Cons)
  moreover have "chunkText ''doc1'' [104, 101, 108, 108, 111] 2 s
      = chunkText ''doc1'' [104, 101, 108, 108, 111] 2 ''split''"
    using s by (simp add: chunkText_def)
  ultimately show ?thesis
    using chunkText_split_eq [of 2 "''doc1''" "[104, 101, 108, 108, 111]"] by simp
qed

lemma demo_foo:
  "map_option (map_sum id (map (length \<circ> Chunks) \<circ> Results))
     (GenerateEmbeddings (real_host remote_down) (demo_config ''mock'') (demo_request ''foo''))
     = Some (Inr [3, 0])"
  by (simp add: GenerateEmbeddings_def effectiveStrategy_def demo_request_fields
      demo_effectiveChunkSize demo_vector embedInput_def demo_chunks)

lemma demo_truncate:
  "map_option (map_sum id (map (length \<circ> Chunks) \<circ> Results))
     (GenerateEmbeddings (real_host remote_down) (demo_config ''mock'') (demo_request ''truncate''))
     = Some (Inr [1, 0])"
  by (simp add: GenerateEmbeddings_def effectiveStrategy_def demo_request_fields
      demo_effectiveChunkSize demo_vector embedInput_def chunkText_def)

theorem GenerateEmbeddings_strategy_witness:
  "TruncateStrategy (demo_request ''foo'') \<noteq> [] \<and> TruncateStrategy (demo_request ''foo'') \<noteq> ''truncate''
   \<and> GenerateEmbeddings (real_host remote_down) (demo_config ''mock'') (demo_request ''foo'')
       = GenerateEmbeddings (real_host remote_down) (demo_config ''mock'') ((demo_request ''foo'')\<lparr>TruncateStrategy := ''split''\<rparr>)
   \<and> TruncateStrategy (demo_request []) = []
   \<and> GenerateEmbeddings (real_host remote_down) (demo_config ''mock'') (demo_request [])
       = GenerateEmbeddings (real_host remote_down) (demo_config ''mock'') ((demo_request [])\<lparr>TruncateStrategy := ''truncate''\<rparr>)"
proof -
  have a: "TruncateStrategy (demo_request ''foo'') \<noteq> [] \<and> TruncateStrategy (demo_request ''foo'') \<noteq> ''truncate''"
    and b: "TruncateStrategy (demo_request []) = []"
    by (simp_all add: demo_request_fields)
  show ?thesis
    using a b
      GenerateEmbeddings_strategy [of "demo_request ''foo''" "real_host remote_down" "demo_config ''mock''"]
      GenerateEmbeddings_strategy [of "demo_request []" "real_host remote_down" "demo_config ''mock''"]
    by blast
qed

text \<open>
  C5 as stated fails: on the five-rune input with chunk size 2 the invalid strategy
  "foo" yields three chunks where "truncate" yields one.
\<close>

theorem GenerateEmbeddings_strategy_counterexample:
  "GenerateEmbeddings (real_host remote_down) (demo_config ''mock'') (demo_request ''foo'')
     \<noteq> GenerateEmbeddings (real_host remote_down) (demo_config ''mock'') (demo_request ''truncate'')"
proof
  assume "GenerateEmbeddings (real_host remote_down) (demo_config ''mock'') (demo_request ''foo'')
     = GenerateEmbeddings (real_host remote_down) (demo_config ''mock'') (demo_request ''truncate'')"
  then have "map_option (map_sum id (map (length \<circ> Chunks) \<circ> Results))
       (GenerateEmbeddings (real_host remote_down) (demo_config ''mock'') (demo_request ''foo''))
     = map_option (map_sum id (map (length \<circ> Chunks) \<circ> Results))
       (GenerateEmbeddings (real_host remote_down) (demo_config ''mock'') (demo_request ''truncate''))"
    by (simp only:)
  then show False by (simp only: demo_foo demo_truncate) simp
qed

section \<open>Embedding pipeline: one payload form per input (C7)\<close>

lemma generateEmbedding_total:
  "0 \<le> EmbeddingDimension cfg \<Longrightarrow> \<exists>v. generateEmbedding h cfg t n = Some v"
  using mockEmbedding_length [of "EmbeddingDimension cfg" h t n]
  by (auto simp: generateEmbedding_def Let_def split: sum.splits)

lemma embedChunks_total:
  "0 \<le> EmbeddingDimension cfg \<Longrightarrow> \<exists>cs. embedChunks h cfg n chunks = Some cs"
proof (induction chunks)
  case Nil
  show ?case by simp
next
  case (Cons chunk rest)
  then obtain cs where "embedChunks h cfg n rest = Some cs" by blast
  moreover obtain v where "generateEmbedding h cfg (tcText chunk) n = Some v"
    using generateEmbedding_total [OF Cons.prems] by blast
  ultimately show ?case by simp
qed

lemma embedChunks_shape:
  "embedChunks h cfg n chunks = Some cs \<Longrightarrow>
   length cs = length chunks \<and> map ChunkID cs = map tcChunkID chunks
   \<and> map Start cs = map tcStart chunks \<and> map End cs = map tcEnd chunks"
  by (induction chunks arbitrary: cs) (auto split: option.splits)

lemma effectiveChunkSize_pos:
  "0 < DefaultChunkSize cfg \<Longrightarrow> 0 < MaxChunkSize cfg \<Longrightarrow> 0 < effectiveChunkSize cfg req"
  by (simp add: effectiveChunkSize_def Let_def)

lemma chunkText_total:
  assumes c: "0 < c" and long: "c < int (length t)"
  shows "\<exists>chunks. chunkText d t c s = Some chunks \<and> chunks \<noteq> []"
proof (cases "s = ''truncate''")
  case True
  then show ?thesis using c long by (simp add: chunkText_def Let_def)
next
  case False
  then have "chunkText d t c s = chunkText d t c ''split''" by (simp add: chunkText_def)
  moreover have "t \<noteq> []" using c long by auto
  then have "0 < chunk_count t c"
    using int_count_iff [OF c, of 0 t] by simp
  ultimately show ?thesis using chunkText_split_eq [OF c, of d t] by simp
qed

lemma embedInput_shape:
  "embedInput h cfg c s n i = Some r \<Longrightarrow>
   ResultID r = ID i
   \<and> (int (length (Text i)) \<le> c \<longrightarrow>
        Chunks r = [] \<and> generateEmbedding h cfg (Text i) n = Some (Embeddings r))
   \<and> (c < int (length (Text i)) \<longrightarrow>
        Embeddings r = []
        \<and> (\<exists>chunks. chunkText (ID i) (Text i) c s = Some chunks
              \<and> embedChunks h cfg n chunks = Some (Chunks r)))"
  by (auto simp: embedInput_def Let_def split: if_splits option.splits)

lemma embedInput_total:
  assumes "0 < c" and "0 \<le> EmbeddingDimension cfg"
  shows "\<exists>r. embedInput h cfg c s n i = Some r"
proof (cases "int (length (Text i)) \<le> c")
  case True
  then show ?thesis
    using generateEmbedding_total [OF assms(2), of h "Text i" n]
    by (auto simp: embedInput_def)
next
  case False
  then obtain chunks where "chunkText (ID i) (Text i) c s = Some chunks"
    using chunkText_total [OF assms(1), of "Text i" "ID i" s] by auto
  moreover obtain cs where "embedChunks h cfg n chunks = Some cs"
    using embedChunks_total [OF assms(2)] by blast
  ultimately show ?thesis using False by (simp add: embedInput_def)
qed

lemma embedInputs_shape:
  "embedInputs h cfg c s n is = Some rs \<Longrightarrow>
   length rs = length is \<and> (\<forall>k < length is. embedInput h cfg c s n (is ! k) = Some (rs ! k))"
proof (induction "is" arbitrary: rs)
  case Nil
  then show ?case by simp
next
  case (Cons i "is")
  then obtain r rs' where r: "embedInput h cfg c s n i = Some r"
    and rs': "embedInputs h cfg c s n is = Some rs'" and rs: "rs = r # rs'"
    by (auto split: option.splits)
  from Cons.IH [OF rs'] r rs show ?case by (auto simp: nth_Cons split: nat.splits)
qed

lemma embedInputs_total:
  assumes "0 < c" and "0 \<le> EmbeddingDimension cfg"
  shows "\<exists>rs. embedInputs h cfg c s n is = Some rs"
proof (induction "is")
  case Nil
  show ?case by simp
next
  case (Cons i "is")
  then obtain rs where "embedInputs h cfg c s n is = Some rs" by blast
  moreover obtain r where "embedInput h cfg c s n i = Some r"
    using embedInput_total [OF assms] by blast
  ultimately show ?case by simp
qed


lemma GenerateEmbeddings_total:
  assumes sane: "0 < DefaultChunkSize cfg \<and> 0 < MaxChunkSize cfg \<and> 0 \<le> EmbeddingDimension cfg"
  shows "(\<exists>resp. GenerateEmbeddings h cfg req = Some (Inr resp)
           \<and> (\<forall>k < length (Inputs req).
                effectiveChunkSize cfg req < int (length (Text (Inputs req ! k))) \<longrightarrow>
                Chunks (Results resp ! k) \<noteq> []))"
proof -
  from sane have c: "0 < effectiveChunkSize cfg req" and d: "0 \<le> EmbeddingDimension cfg"
    by (simp_all add: effectiveChunkSize_pos)
  obtain rs where rs: "embedInputs h cfg (effectiveChunkSize cfg req) (effectiveStrategy req)
        (Normalize req) (Inputs req) = Some rs"
    using embedInputs_total [OF c d] by blast
  then have ret: "GenerateEmbeddings h cfg req = Some (Inr \<lparr>Results = rs\<rparr>)"
    by (simp add: GenerateEmbeddings_def)
  note sh = embedInputs_shape [OF rs]
  have "Chunks (rs ! k) \<noteq> []"
    if k: "k < length (Inputs req)"
      and long: "effectiveChunkSize cfg req < int (length (Text (Inputs req ! k)))" for k
  proof -
    have e: "embedInput h cfg (effectiveChunkSize cfg req) (effectiveStrategy req) (Normalize req)
        (Inputs req ! k) = Some (rs ! k)"
      using sh k by blast
    from embedInput_shape [OF e] long obtain chunks where
      ch: "chunkText (ID (Inputs req ! k)) (Text (Inputs req ! k))
             (effectiveChunkSize cfg req) (effectiveStrategy req) = Some chunks"
      and em: "embedChunks h cfg (Normalize req) chunks = Some (Chunks (rs ! k))"
      by blast
    from chunkText_total [OF c long, of "ID (Inputs req ! k)" "effectiveStrategy req"] ch
    have "chunks \<noteq> []" by simp
    with embedChunks_shape [OF em] show ?thesis by auto
  qed
  with ret show ?thesis by simp
qed







section \<open>The worker: runs of processJob\<close>

lemma updates_append [simp]: "updates (xs @ ys) = updates xs @ updates ys"
  by (induction xs rule: updates.induct) simp_all

lemma downloads_append [simp]: "downloads (xs @ ys) = downloads xs @ downloads ys"
  by (induction xs rule: downloads.induct) simp_all

lemma callbacks_append [simp]: "callbacks (xs @ ys) = callbacks xs @ callbacks ys"
  by (induction xs rule: callbacks.induct) simp_all

lemma saves_append [simp]: "saves (xs @ ys) = saves xs @ saves ys"
  by (induction xs rule: saves.induct) simp_all

lemma writeBack_eq:
  "writeBack w job st =
     (job\<lparr>UpdatedAt := clock w (length (trace st))\<rparr>,
      \<lparr>store = (store st)(JobID job \<mapsto> job\<lparr>UpdatedAt := clock w (length (trace st))\<rparr>),
       trace = trace st @ [Update (job\<lparr>UpdatedAt := clock w (length (trace st))\<rparr>)]\<rparr>)"
  by (simp add: writeBack_def UpdateJob_def Let_def)

lemma posts_silent [simp]:
  "updates (posts job) = []" "downloads (posts job) = []" "callbacks (posts job) = []"
  "saves (posts job) = []"
  by (simp_all add: posts_def)

lemma sendCallback_trace:
  "trace (sendCallback job st) = trace st @ Callback job # posts job"
  by (simp add: sendCallback_def emit_def Let_def posts_def)

lemma sendCallback_store: "store (sendCallback job st) = store st"
  by (simp add: sendCallback_def emit_def Let_def)

lemma failJob_trace:
  "trace (failJob w job code err st) =
     trace st @ [Update (failed job code err (clock w (length (trace st)))),
                 Callback (failed job code err (clock w (length (trace st))))]
       @ posts (failed job code err (clock w (length (trace st))))"
  by (simp add: failJob_def writeBack_eq Let_def failed_def sendCallback_trace)

lemma failJob_store:
  "store (failJob w job code err st) =
     (store st)(JobID job \<mapsto> failed job code err (clock w (length (trace st))))"
  by (simp add: failJob_def writeBack_eq Let_def failed_def sendCallback_store)

lemma failed_fields [simp]:
  "Status (failed job code err now) = ''failed''"
  "Error (failed job code err now) = Some \<lparr>Code = code, Message = err\<rparr>"
  "JobID (failed job code err now) = JobID job"
  "ResultURLs (failed job code err now) = ResultURLs job"
  "Progress (failed job code err now) = Progress job"
  by (simp_all add: failed_def)

lemma fileSucceedsD:
  assumes "fileSucceeds w m u"
  shows "\<exists>content filename t resp. downloadFile w u = Inr (content, filename)
     \<and> extractText w filename content = Inr t
     \<and> embed w (jobRequest w m filename t) = Some (Inr resp)"
proof (cases "downloadFile w u")
  case (Inl e)
  with assms show ?thesis by (simp add: fileSucceeds_def)
next
  case (Inr p)
  obtain content filename where p: "p = (content, filename)" by (cases p)
  show ?thesis
  proof (cases "extractText w filename content")
    case (Inl e)
    with assms Inr p show ?thesis by (simp add: fileSucceeds_def)
  next
    case ex: (Inr t)
    show ?thesis
    proof (cases "embed w (jobRequest w m filename t)")
      case None
      with assms Inr p ex show ?thesis by (simp add: fileSucceeds_def)
    next
      case (Some r)
      show ?thesis
      proof (cases r)
        case (Inl e)
        with assms Inr p ex Some show ?thesis by (simp add: fileSucceeds_def)
      next
        case r: (Inr resp)
        with Inr p ex Some show ?thesis by simp
      qed
    qed
  qed
qed

lemma fileLoop_prefix:
  assumes "\<forall>u\<in>set pre. fileSucceeds w (JobModel job) u"
  shows "\<exists>results' job' st' evs.
     fileLoop w n i (pre @ rest) results job st
       = fileLoop w n (i + int (length pre)) rest results' job' st'
     \<and> trace st' = trace st @ evs
     \<and> callbacks evs = [] \<and> saves evs = [] \<and> downloads evs = pre
     \<and> map Progress (updates evs) = progress_from n i (length pre)
     \<and> (\<forall>j\<in>set (updates evs). Status j = Status job \<and> Error j = Error job
            \<and> ResultURLs j = ResultURLs job \<and> JobID j = JobID job)
     \<and> Status job' = Status job \<and> Error job' = Error job \<and> ResultURLs job' = ResultURLs job
     \<and> JobID job' = JobID job \<and> JobModel job' = JobModel job
     \<and> Progress job' = last (Progress job # progress_from n i (length pre))"
  using assms
proof (induction pre arbitrary: i results job st)
  case Nil
  show ?case
    apply (rule exI [of _ results], rule exI [of _ job], rule exI [of _ st], rule exI [of _ "[]"])
    by simp
next
  case (Cons u pre)
  from Cons.prems have ok: "fileSucceeds w (JobModel job) u"
    and rest: "\<forall>u\<in>set pre. fileSucceeds w (JobModel job) u" by simp_all
  from ok obtain content filename t resp where
    dl: "downloadFile w u = Inr (content, filename)"
    and ex: "extractText w filename content = Inr t"
    and em: "embed w (jobRequest w (JobModel job) filename t) = Some (Inr resp)"
    using fileSucceedsD by blast
  define st1 where "st1 = emit (Embed (jobRequest w (JobModel job) filename t))
                            (emit (Extract filename) (emit (Download u) st))"
  define job1 where "job1 = job\<lparr>Progress := ((i + 1) * 100) div n,
                                   UpdatedAt := clock w (length (trace st1))\<rparr>"
  define st2 where "st2 = \<lparr>store = (store st1)(JobID job \<mapsto> job1), trace = trace st1 @ [Update job1]\<rparr>"
  have step: "fileLoop w n i ((u # pre) @ rest) results job st =
                fileLoop w n (i + 1) (pre @ rest) (results @ [resp]) job1 st2"
    by (simp add: dl ex em Let_def writeBack_eq st1_def job1_def st2_def)
  have j1: "JobModel job1 = JobModel job" "JobID job1 = JobID job" "ResultURLs job1 = ResultURLs job"
    "Status job1 = Status job" "Error job1 = Error job" "Progress job1 = ((i + 1) * 100) div n"
    by (simp_all add: job1_def)
  from Cons.IH [of job1 "i + 1" "results @ [resp]" st2] rest j1
  obtain results' job' st' evs where
    r: "fileLoop w n (i + 1) (pre @ rest) (results @ [resp]) job1 st2
          = fileLoop w n (i + 1 + int (length pre)) rest results' job' st'"
    and tr: "trace st' = trace st2 @ evs"
    and ev: "callbacks evs = []" "saves evs = []" "downloads evs = pre"
      "map Progress (updates evs) = progress_from n (i + 1) (length pre)"
    and all: "\<forall>j\<in>set (updates evs). Status j = Status job \<and> Error j = Error job
            \<and> ResultURLs j = ResultURLs job \<and> JobID j = JobID job"
    and j': "Status job' = Status job" "Error job' = Error job" "ResultURLs job' = ResultURLs job"
      "JobID job' = JobID job" "JobModel job' = JobModel job"
      "Progress job' = last (Progress job1 # progress_from n (i + 1) (length pre))"
    by auto
  let ?evs = "[Download u, Extract filename, Embed (jobRequest w (JobModel job) filename t), Update job1] @ evs"
  have tr': "trace st' = trace st @ ?evs"
    by (simp add: tr st2_def st1_def emit_def)
  have idx: "i + 1 + int (length pre) = i + int (length (u # pre))" by simp
  show ?case
    apply (rule exI [of _ results'], rule exI [of _ job'], rule exI [of _ st'], rule exI [of _ ?evs])
    using step r tr' ev all j' j1 by (simp add: idx)
qed

lemma fileLoop_fail_step:
  assumes "fileFailure w (JobModel job) f = Some (code, err)"
  shows "\<exists>st' evs jf. fileLoop w n i (f # post) results job st = Inl st'
     \<and> trace st' = trace st @ evs
     \<and> updates evs = [jf] \<and> callbacks evs = [jf] \<and> saves evs = [] \<and> downloads evs = [f]
     \<and> store st' (JobID job) = Some jf
     \<and> Status jf = ''failed'' \<and> Error jf = Some \<lparr>Code = code, Message = err\<rparr>
     \<and> JobID jf = JobID job \<and> ResultURLs jf = ResultURLs job \<and> Progress jf = Progress job"
proof (cases "downloadFile w f")
  case (Inl e)
  with assms have ce: "code = ''download_failed''" "err = e" by (simp_all add: fileFailure_def)
  show ?thesis
    by (simp add: Inl ce failJob_trace failJob_store emit_def)
next
  case (Inr p)
  obtain content filename where p: "p = (content, filename)" by (cases p)
  show ?thesis
  proof (cases "extractText w filename content")
    case (Inl e)
    with assms Inr p have ce: "code = ''extraction_failed''" "err = e"
      by (simp_all add: fileFailure_def)
    show ?thesis
      by (simp add: Inr p Inl ce failJob_trace failJob_store emit_def)
  next
    case ex: (Inr t)
    with assms Inr p
    have em: "embed w (jobRequest w (JobModel job) filename t) = Some (Inl err)"
      and ce: "code = ''embedding_failed''"
      by (auto simp: fileFailure_def split: option.splits sum.splits)
    show ?thesis
      by (simp add: Inr p ex em ce failJob_trace failJob_store emit_def)
  qed
qed

lemma fileLoop_abort_step:
  assumes "fileAborts w (JobModel job) f"
  shows "\<exists>st' evs. fileLoop w n i (f # post) results job st = Inl st'
     \<and> trace st' = trace st @ evs
     \<and> updates evs = [] \<and> callbacks evs = [] \<and> saves evs = [] \<and> downloads evs = [f]"
proof (cases "downloadFile w f")
  case (Inl e)
  with assms show ?thesis by (simp add: fileAborts_def)
next
  case (Inr p)
  obtain content filename where p: "p = (content, filename)" by (cases p)
  show ?thesis
  proof (cases "extractText w filename content")
    case (Inl e)
    with assms Inr p show ?thesis by (simp add: fileAborts_def)
  next
    case ex: (Inr t)
    with assms Inr p have "embed w (jobRequest w (JobModel job) filename t) = None"
      by (simp add: fileAborts_def)
    then show ?thesis by (simp add: Inr p ex emit_def)
  qed
qed

lemma fileFailure_code:
  assumes "fileFailure w m f = Some (code, err)"
  shows "code = ''download_failed'' \<or> code = ''extraction_failed''
     \<or> code = ''embedding_failed'' \<and> (\<exists>req. embed w req = Some (Inl err))"
proof (cases "downloadFile w f")
  case (Inl e)
  with assms show ?thesis by (simp add: fileFailure_def)
next
  case (Inr p)
  obtain content filename where p: "p = (content, filename)" by (cases p)
  show ?thesis
  proof (cases "extractText w filename content")
    case (Inl e)
    with assms Inr p show ?thesis by (simp add: fileFailure_def)
  next
    case ex: (Inr t)
    with assms Inr p show ?thesis
      by (auto simp: fileFailure_def split: option.splits sum.splits)
  qed
qed

lemma file_trichotomy:
  "fileSucceeds w m f \<or> (\<exists>code err. fileFailure w m f = Some (code, err)) \<or> fileAborts w m f"
proof (cases "downloadFile w f")
  case (Inl e)
  then show ?thesis by (simp add: fileFailure_def)
next
  case (Inr p)
  obtain content filename where p: "p = (content, filename)" by (cases p)
  show ?thesis
  proof (cases "extractText w filename content")
    case (Inl e)
    with Inr p show ?thesis by (simp add: fileFailure_def)
  next
    case ex: (Inr t)
    show ?thesis
    proof (cases "embed w (jobRequest w m filename t)")
      case None
      with Inr p ex show ?thesis by (simp add: fileAborts_def)
    next
      case (Some r)
      with Inr p ex show ?thesis
        by (cases r) (simp_all add: fileFailure_def fileSucceeds_def)
    qed
  qed
qed

lemma files_split:
  "(\<forall>u\<in>set files. fileSucceeds w m u)
   \<or> (\<exists>pre f post. files = pre @ f # post \<and> (\<forall>u\<in>set pre. fileSucceeds w m u)
         \<and> \<not> fileSucceeds w m f)"
proof (cases "\<exists>u\<in>set files. \<not> fileSucceeds w m u")
  case True
  from split_list_first_prop [OF True] show ?thesis by blast
next
  case False
  then show ?thesis by blast
qed

lemma progress_from_bounds:
  assumes "0 \<le> i" and "i + int m \<le> n"
  shows "sorted (((i * 100) div n) # progress_from n i m)
     \<and> (\<forall>p\<in>set (progress_from n i m). (i * 100) div n \<le> p \<and> p \<le> 100)
     \<and> last (((i * 100) div n) # progress_from n i m) = ((i + int m) * 100) div n"
  using assms
proof (induction m arbitrary: i)
  case 0
  show ?case by simp
next
  case (Suc m)
  then have n: "0 < n" by simp
  from Suc.prems have le: "0 \<le> i + 1" "i + 1 + int m \<le> n" by simp_all
  note IH = Suc.IH [OF le]
  have mono: "(i * 100) div n \<le> ((i + 1) * 100) div n"
    using n by (intro zdiv_mono1) simp_all
  have "((i + 1) * 100) div n \<le> (n * 100) div n"
    using n le by (intro zdiv_mono1) simp_all
  then have top: "((i + 1) * 100) div n \<le> 100" using n by simp
  have idx: "i + 1 + int m = i + int (Suc m)" by simp
  have low: "\<forall>p\<in>set (progress_from n (i + 1) m). (i * 100) div n \<le> p \<and> p \<le> 100"
    using IH mono by force
  have "sorted (((i * 100) div n) # ((i + 1) * 100) div n # progress_from n (i + 1) m)"
    using IH mono low by simp
  moreover have "last (((i * 100) div n) # progress_from n i (Suc m)) = ((i + int (Suc m)) * 100) div n"
    using IH by (simp add: idx del: of_nat_Suc)
  ultimately show ?case using low mono top by (simp del: of_nat_Suc)
qed

lemma progress_last_lt:
  assumes "int m < n"
  shows "last (0 # progress_from n 0 m) < 100"
proof -
  have "last (((0 * 100) div n) # progress_from n 0 m) = ((0 + int m) * 100) div n"
    using assms by (intro progress_from_bounds [THEN conjunct2, THEN conjunct2]) simp_all
  moreover have "(int m * 100) div n < 100"
  proof -
    from assms obtain N where N: "n = int N" and pos: "0 < N"
      by (metis nat_0_le less_imp_le not_less of_nat_0_less_iff of_nat_less_0_iff order_less_le_trans)
    have "(m * 100) div N < 100"
      using assms pos by (simp add: div_less_iff_less_mult N)
    then have "int ((m * 100) div N) < 100" by simp
    then show ?thesis by (simp add: N zdiv_int)
  qed
  ultimately show ?thesis by simp
qed

lemma progress_last_full:
  assumes "int m = n" and "0 < m"
  shows "last (0 # progress_from n 0 m) = 100"
proof -
  have "last (((0 * 100) div n) # progress_from n 0 m) = ((0 + int m) * 100) div n"
    using assms by (intro progress_from_bounds [THEN conjunct2, THEN conjunct2]) simp_all
  then show ?thesis using assms by simp
qed

lemma started_fields [simp]:
  "Status (started w job) = ''running''" "Progress (started w job) = 0"
  "Error (started w job) = Error job" "ResultURLs (started w job) = ResultURLs job"
  "JobID (started w job) = JobID job" "JobModel (started w job) = JobModel job"
  "Files (started w job) = Files job"
  by (simp_all add: started_def)

lemma processJob_missing:
  "s jobID = None \<Longrightarrow> processJob w jobID \<lparr>store = s, trace = []\<rparr> = \<lparr>store = s, trace = []\<rparr>"
  by (simp add: processJob_def GetJob_def)

lemma processJob_unfold:
  assumes "s jobID = Some job0"
  shows "processJob w jobID \<lparr>store = s, trace = []\<rparr> =
     (case fileLoop w (int (length (Files job0))) 0 (Files job0) [] (started w job0)
             \<lparr>store = s(JobID job0 \<mapsto> started w job0), trace = [Update (started w job0)]\<rparr> of
        Inl st \<Rightarrow> st
      | Inr (results, job, st) \<Rightarrow>
          (case saveResults w (JobID job) results of
             Inl err \<Rightarrow> failJob w job ''storage_failed'' err (emit (Save (JobID job) results) st)
           | Inr resultPath \<Rightarrow>
               sendCallback
                 (job\<lparr>Status := ''completed'', Progress := 100, ResultURLs := [resultPath],
                       UpdatedAt := clock w (Suc (length (trace st)))\<rparr>)
                 \<lparr>store = (store st)(JobID job \<mapsto>
                      job\<lparr>Status := ''completed'', Progress := 100, ResultURLs := [resultPath],
                            UpdatedAt := clock w (Suc (length (trace st)))\<rparr>),
                  trace = trace st @ [Save (JobID job) results,
                      Update (job\<lparr>Status := ''completed'', Progress := 100, ResultURLs := [resultPath],
                            UpdatedAt := clock w (Suc (length (trace st)))\<rparr>)]\<rparr>))"
  using assms
  by (simp add: processJob_def GetJob_def writeBack_eq Let_def started_def emit_def
      split: sum.splits prod.splits)

lemma processJob_failure:
  assumes s: "s jobID = Some job0" and id: "JobID job0 = jobID"
    and files: "Files job0 = pre @ f # post"
    and pre: "\<forall>u\<in>set pre. fileSucceeds w (JobModel job0) u"
    and fail: "fileFailure w (JobModel job0) f = Some (code, err)"
  shows "\<exists>jf. store (processJob w jobID \<lparr>store = s, trace = []\<rparr>) jobID = Some jf
     \<and> Status jf = ''failed'' \<and> Error jf = Some \<lparr>Code = code, Message = err\<rparr>
     \<and> ResultURLs jf = ResultURLs job0
     \<and> updates (trace (processJob w jobID \<lparr>store = s, trace = []\<rparr>)) \<noteq> []
     \<and> last (updates (trace (processJob w jobID \<lparr>store = s, trace = []\<rparr>))) = jf
     \<and> callbacks (trace (processJob w jobID \<lparr>store = s, trace = []\<rparr>)) = [jf]
     \<and> downloads (trace (processJob w jobID \<lparr>store = s, trace = []\<rparr>)) = pre @ [f]
     \<and> saves (trace (processJob w jobID \<lparr>store = s, trace = []\<rparr>)) = []"
proof -
  define n where "n = int (length (Files job0))"
  let ?n = n
  let ?st1 = "\<lparr>store = s(JobID job0 \<mapsto> started w job0), trace = [Update (started w job0)]\<rparr>
                :: 'a run"
  from fileLoop_prefix [of pre w "started w job0" ?n 0 "f # post" "[]" ?st1] pre
  obtain results' job' st' evs where
    r: "fileLoop w ?n 0 (pre @ f # post) [] (started w job0) ?st1
          = fileLoop w ?n (0 + int (length pre)) (f # post) results' job' st'"
    and tr: "trace st' = trace ?st1 @ evs"
    and ev: "callbacks evs = []" "saves evs = []" "downloads evs = pre"
    and j': "ResultURLs job' = ResultURLs (started w job0)" "JobID job' = JobID (started w job0)"
      "JobModel job' = JobModel (started w job0)"
    by auto
  from fail j' have fail': "fileFailure w (JobModel job') f = Some (code, err)" by simp
  from fileLoop_fail_step [OF fail', of ?n "0 + int (length pre)" post results' st']
  obtain st'' evs2 jf where
    r2: "fileLoop w ?n (0 + int (length pre)) (f # post) results' job' st' = Inl st''"
    and tr2: "trace st'' = trace st' @ evs2"
    and ev2: "updates evs2 = [jf]" "callbacks evs2 = [jf]" "saves evs2 = []" "downloads evs2 = [f]"
    and jf: "store st'' (JobID job') = Some jf" "Status jf = ''failed''"
      "Error jf = Some \<lparr>Code = code, Message = err\<rparr>" "ResultURLs jf = ResultURLs job'"
    by blast
  have run: "processJob w jobID \<lparr>store = s, trace = []\<rparr> = st''"
    unfolding processJob_unfold [where s = s and jobID = jobID, OF s] n_def [symmetric]
    by (simp only: files r r2 sum.case)
  show ?thesis
    using jf j' id ev ev2 by (simp add: run tr2 tr)
qed

lemma processJob_updates:
  assumes s: "s jobID = Some job0"
  shows "\<exists>m us tail.
       updates (trace (processJob w jobID \<lparr>store = s, trace = []\<rparr>)) = us @ tail
     \<and> m \<le> length (Files job0)
     \<and> map Progress us = 0 # progress_from (int (length (Files job0))) 0 m
     \<and> (\<forall>j\<in>set us. Status j = ''running'' \<and> Error j = Error job0
            \<and> ResultURLs j = ResultURLs job0 \<and> JobID j = JobID job0)
     \<and> runEnds w job0 m tail"
proof -
  define n where "n = int (length (Files job0))"
  define j1 where "j1 = started w job0"
  define st1 where "st1 = (\<lparr>store = s(JobID job0 \<mapsto> j1), trace = [Update j1]\<rparr> :: 'a run)"
  define out where "out = processJob w jobID \<lparr>store = s, trace = []\<rparr>"
  have j1: "Status j1 = ''running''" "Progress j1 = 0" "Error j1 = Error job0"
    "ResultURLs j1 = ResultURLs job0" "JobID j1 = JobID job0" "JobModel j1 = JobModel job0"
    by (simp_all add: j1_def)
  note unfold = processJob_unfold [where s = s and jobID = jobID and w = w, OF s,
      folded n_def j1_def, folded st1_def, folded out_def]
  have prefix: "\<exists>results' job' st' evs.
       fileLoop w n 0 (pre @ rest) [] j1 st1 = fileLoop w n (0 + int (length pre)) rest results' job' st'
     \<and> trace st' = trace st1 @ evs
     \<and> map Progress (updates evs) = progress_from n 0 (length pre)
     \<and> (\<forall>j\<in>set (updates evs). Status j = ''running'' \<and> Error j = Error job0
            \<and> ResultURLs j = ResultURLs job0 \<and> JobID j = JobID job0)
     \<and> Status job' = ''running'' \<and> Error job' = Error job0 \<and> ResultURLs job' = ResultURLs job0
     \<and> JobID job' = JobID job0 \<and> JobModel job' = JobModel job0
     \<and> Progress job' = last (0 # progress_from n 0 (length pre))"
    if "\<forall>u\<in>set pre. fileSucceeds w (JobModel job0) u" for pre rest
  proof -
    have pre': "\<forall>u\<in>set pre. fileSucceeds w (JobModel j1) u" using that j1 by simp
    show ?thesis
      using fileLoop_prefix [OF pre', of n 0 rest "[]" st1] unfolding j1
      by (elim exE conjE) (intro exI conjI; assumption)
  qed
  consider (all) "\<forall>u\<in>set (Files job0). fileSucceeds w (JobModel job0) u"
    | (stop) pre f post where "Files job0 = pre @ f # post"
        "\<forall>u\<in>set pre. fileSucceeds w (JobModel job0) u" "\<not> fileSucceeds w (JobModel job0) f"
    using files_split [of "Files job0" w "JobModel job0"] by blast
  then have "\<exists>m us tail.
       updates (trace out) = us @ tail
     \<and> m \<le> length (Files job0)
     \<and> map Progress us = 0 # progress_from n 0 m
     \<and> (\<forall>j\<in>set us. Status j = ''running'' \<and> Error j = Error job0
            \<and> ResultURLs j = ResultURLs job0 \<and> JobID j = JobID job0)
     \<and> runEnds w job0 m tail"
  proof cases
    case all
    from prefix [OF all, of "[]"] obtain results' job' st' evs where
      r: "fileLoop w n 0 (Files job0) [] j1 st1 = Inr (results', job', st')"
      and tr: "trace st' = trace st1 @ evs"
      and pr: "map Progress (updates evs) = progress_from n 0 (length (Files job0))"
      and al: "\<forall>j\<in>set (updates evs). Status j = ''running'' \<and> Error j = Error job0
            \<and> ResultURLs j = ResultURLs job0 \<and> JobID j = JobID job0"
      and j': "Status job' = ''running''" "Error job' = Error job0" "ResultURLs job' = ResultURLs job0"
        "JobID job' = JobID job0"
        "Progress job' = last (0 # progress_from n 0 (length (Files job0)))"
      by auto
    let ?us = "j1 # updates evs"
    show ?thesis
    proof (cases "saveResults w (JobID job') results'")
      case (Inl err)
      let ?jf = "failed job' ''storage_failed'' err
                   (clock w (length (trace (emit (Save (JobID job') results') st'))))"
      have o: "out = failJob w job' ''storage_failed'' err (emit (Save (JobID job') results') st')"
        by (simp only: unfold r sum.case prod.case Inl)
      have u: "updates (trace out) = ?us @ [?jf]"
        by (simp add: o failJob_trace emit_def tr st1_def)
      show ?thesis
        apply (rule exI [of _ "length (Files job0)"], rule exI [of _ ?us], rule exI [of _ "[?jf]"])
        using u pr al j' j1 by (simp add: runEnds_def n_def)
    next
      case (Inr path)
      let ?jc = "job'\<lparr>Status := ''completed'', Progress := 100, ResultURLs := [path],
                       UpdatedAt := clock w (Suc (length (trace st')))\<rparr>"
      have o: "out = sendCallback ?jc
                 \<lparr>store = (store st')(JobID job' \<mapsto> ?jc),
                  trace = trace st' @ [Save (JobID job') results', Update ?jc]\<rparr>"
        by (simp only: unfold r sum.case prod.case Inr)
      have u: "updates (trace out) = ?us @ [?jc]"
        by (simp add: o sendCallback_trace tr st1_def)
      show ?thesis
        apply (rule exI [of _ "length (Files job0)"], rule exI [of _ ?us], rule exI [of _ "[?jc]"])
        using u pr al j' j1 by (simp add: runEnds_def n_def)
    qed
  next
    case stop
    from prefix [OF stop(2), of "f # post"] obtain results' job' st' evs where
      r: "fileLoop w n 0 (pre @ f # post) [] j1 st1
            = fileLoop w n (0 + int (length pre)) (f # post) results' job' st'"
      and tr: "trace st' = trace st1 @ evs"
      and pr: "map Progress (updates evs) = progress_from n 0 (length pre)"
      and al: "\<forall>j\<in>set (updates evs). Status j = ''running'' \<and> Error j = Error job0
            \<and> ResultURLs j = ResultURLs job0 \<and> JobID j = JobID job0"
      and j': "Status job' = ''running''" "Error job' = Error job0" "ResultURLs job' = ResultURLs job0"
        "JobID job' = JobID job0" "JobModel job' = JobModel job0"
        "Progress job' = last (0 # progress_from n 0 (length pre))"
      by auto
    let ?us = "j1 # updates evs"
    have m: "length pre < length (Files job0)" by (simp add: stop(1))
    from stop(3) file_trichotomy [of w "JobModel job0" f]
    consider (fail) code err where "fileFailure w (JobModel job0) f = Some (code, err)"
      | (abort) "fileAborts w (JobModel job0) f"
      by blast
    then show ?thesis
    proof cases
      case fail
      then have fail': "fileFailure w (JobModel job') f = Some (code, err)" by (simp add: j')
      from fileLoop_fail_step [OF fail', of n "0 + int (length pre)" post results' st']
      obtain st'' evs2 jf where
        r2: "fileLoop w n (0 + int (length pre)) (f # post) results' job' st' = Inl st''"
        and tr2: "trace st'' = trace st' @ evs2"
        and ev2: "updates evs2 = [jf]"
        and jf: "Status jf = ''failed''" "Error jf = Some \<lparr>Code = code, Message = err\<rparr>"
          "JobID jf = JobID job'" "ResultURLs jf = ResultURLs job'" "Progress jf = Progress job'"
        by blast
      have o: "out = st''"
        by (simp only: unfold stop(1) r r2 sum.case)
      have u: "updates (trace out) = ?us @ [jf]"
        by (simp add: o tr2 tr st1_def ev2)
      show ?thesis
        apply (rule exI [of _ "length pre"], rule exI [of _ ?us], rule exI [of _ "[jf]"])
        using u pr al j' j1 jf m fileFailure_code [OF fail] by (simp add: runEnds_def n_def)
    next
      case abort
      then have abort': "fileAborts w (JobModel job') f" by (simp add: j')
      from fileLoop_abort_step [OF abort', of n "0 + int (length pre)" post results' st']
      obtain st'' evs2 where
        r2: "fileLoop w n (0 + int (length pre)) (f # post) results' job' st' = Inl st''"
        and tr2: "trace st'' = trace st' @ evs2"
        and ev2: "updates evs2 = []"
        by blast
      have o: "out = st''"
        by (simp only: unfold stop(1) r r2 sum.case)
      have u: "updates (trace out) = ?us @ []"
        by (simp add: o tr2 tr st1_def ev2)
      show ?thesis
        apply (rule exI [of _ "length pre"], rule exI [of _ ?us], rule exI [of _ "[]"])
        using u pr al j' j1 m by (simp add: runEnds_def n_def)
    qed
  qed
  then show ?thesis by (simp only: out_def n_def)
qed

lemma registryWrites_eq:
  "registryWrites w uuid c u s files model cb =
     created uuid c u files model cb
       # updates (trace (processJob w uuid
            \<lparr>store = s(uuid \<mapsto> created uuid c u files model cb), trace = []\<rparr>))"
  by (simp add: registryWrites_def CreateJob_def Let_def created_def)

lemma created_fields [simp]:
  "Status (created uuid c u files model cb) = ''queued''"
  "Progress (created uuid c u files model cb) = 0"
  "Error (created uuid c u files model cb) = None"
  "ResultURLs (created uuid c u files model cb) = []"
  "Files (created uuid c u files model cb) = files"
  "JobID (created uuid c u files model cb) = uuid"
  by (simp_all add: created_def)

lemma registryWrites_shape:
  obtains m us tail where
    "registryWrites w uuid c u s files model cb = created uuid c u files model cb # us @ tail"
    "m \<le> length files"
    "map Progress us = 0 # progress_from (int (length files)) 0 m"
    "\<forall>j\<in>set us. Status j = ''running'' \<and> Error j = None \<and> ResultURLs j = []"
    "runEnds w (created uuid c u files model cb) m tail"
proof -
  let ?job0 = "created uuid c u files model cb"
  let ?s = "s(uuid \<mapsto> ?job0)"
  have s: "?s uuid = Some ?job0" by simp
  from processJob_updates [where s = ?s and jobID = uuid and w = w, OF s]
  show ?thesis
  proof (elim exE conjE)
    fix m us tail
    assume a: "updates (trace (processJob w uuid \<lparr>store = ?s, trace = []\<rparr>)) = us @ tail"
      and b: "m \<le> length (Files ?job0)"
      and c: "map Progress us = 0 # progress_from (int (length (Files ?job0))) 0 m"
      and d: "\<forall>j\<in>set us. Status j = ''running'' \<and> Error j = Error ?job0
            \<and> ResultURLs j = ResultURLs ?job0 \<and> JobID j = JobID ?job0"
      and e: "runEnds w ?job0 m tail"
    show ?thesis
    proof (rule that [of us tail m])
      show "registryWrites w uuid c u s files model cb = ?job0 # us @ tail"
        using a by (simp add: registryWrites_eq)
      show "m \<le> length files" using b by simp
      show "map Progress us = 0 # progress_from (int (length files)) 0 m" using c by simp
      show "\<forall>j\<in>set us. Status j = ''running'' \<and> Error j = None \<and> ResultURLs j = []"
        using d by simp
      show "runEnds w ?job0 m tail" by (rule e)
    qed
  qed
qed

lemma GenerateEmbeddings_no_error: "GenerateEmbeddings h cfg req \<noteq> Some (Inl err)"
  by (simp add: GenerateEmbeddings_def split: option.splits)

lemma sorted_snoc_last: "sorted xs \<Longrightarrow> xs \<noteq> [] \<Longrightarrow> sorted (xs @ [last xs :: int])"
  by (induction xs) (auto simp: sorted_append)

lemma sorted_snoc_top: "sorted xs \<Longrightarrow> \<forall>x\<in>set xs. x \<le> t \<Longrightarrow> sorted (xs @ [t :: int])"
  by (simp add: sorted_append)

lemma demo_job_fields:
  "demo_store files ''job-1'' = Some (demo_job files)"
  "JobID (demo_job files) = ''job-1''"
  "Files (demo_job files) = files"
  "JobModel (demo_job files) = ''embed-large-512''"
  by (simp_all add: demo_store_def demo_job_def CreateJob_def Let_def)

lemma demo_worker_fields:
  "downloadFile demo_worker = demo_download" "extractText demo_worker = demo_extract"
  "embed demo_worker = GenerateEmbeddings (real_host remote_down) (demo_config ''mock'')"
  "saveResults demo_worker = demo_save" "clock demo_worker = demo_clock"
  "config demo_worker = demo_config ''mock''"
  by (simp_all add: demo_worker_def NewWorker_def)

lemma faulty_worker_fields:
  "downloadFile faulty_worker = demo_download" "extractText faulty_worker = demo_extract"
  "embed faulty_worker = embed_unavailable"
  by (simp_all add: faulty_worker_def demo_worker_fields)

lemma demo_embed_ok: "\<exists>resp. embed demo_worker req = Some (Inr resp)"
proof -
  have "0 < DefaultChunkSize (demo_config ''mock'') \<and> 0 < MaxChunkSize (demo_config ''mock'')
      \<and> 0 \<le> EmbeddingDimension (demo_config ''mock'')"
    by (simp add: demo_config_def)
  from GenerateEmbeddings_total [OF this, of "real_host remote_down" req]
  show ?thesis by (auto simp: demo_worker_fields)
qed

lemma demo_a_download: "demo_download ''/data/a.txt'' = Inr ([104, 105], ''a.txt'')"
  by (simp add: demo_download_def)

lemma demo_a_extract: "demo_extract ''a.txt'' [104, 105] = Inr [104, 105]"
  by (simp add: demo_extract_def)

lemma demo_a_ok: "fileSucceeds demo_worker m ''/data/a.txt''"
proof -
  obtain resp where
    "embed demo_worker (jobRequest demo_worker m ''a.txt'' [104, 105]) = Some (Inr resp)"
    using demo_embed_ok by blast
  then show ?thesis
    by (simp add: fileSucceeds_def demo_worker_fields(1,2) demo_a_download demo_a_extract)
qed

lemma demo_fileLoop_a:
  "\<exists>results job st.
     fileLoop demo_worker (int (length [''/data/a.txt''])) 0 [''/data/a.txt''] []
        (started demo_worker (demo_job [''/data/a.txt'']))
        \<lparr>store = (demo_store [''/data/a.txt''])(''job-1'' \<mapsto> started demo_worker (demo_job [''/data/a.txt''])),
         trace = [Update (started demo_worker (demo_job [''/data/a.txt'']))]\<rparr>
       = Inr (results, job, st)
     \<and> Status job = ''running'' \<and> Progress job = 100 \<and> JobID job = ''job-1''
     \<and> updates (trace st) = [started demo_worker (demo_job [''/data/a.txt'']), job]"
proof -
  obtain resp where
    e: "embed demo_worker (jobRequest demo_worker ''embed-large-512'' ''a.txt'' [104, 105]) = Some (Inr resp)"
    using demo_embed_ok by blast
  show ?thesis
    by (simp add: demo_worker_fields(1,2) demo_a_download demo_a_extract demo_job_fields e
        writeBack_eq emit_def Let_def)
qed

lemma demo_lifetime:
  "map Status (registryWrites demo_worker ''job-1'' 1700000000 1700000000 demo_registry
       [''/data/a.txt''] ''embed-large-512'' [])
     = [''queued'', ''running'', ''running'', ''completed'']
   \<and> map Progress (registryWrites demo_worker ''job-1'' 1700000000 1700000000 demo_registry
       [''/data/a.txt''] ''embed-large-512'' [])
     = [0, 0, 100, 100]"
proof -
  let ?F = "[''/data/a.txt'']"
  have c: "CreateJob ''job-1'' 1700000000 1700000000 demo_registry ?F ''embed-large-512'' []
             = (demo_job ?F, demo_store ?F)"
    by (simp add: demo_job_def demo_store_def)
  have q: "Status (demo_job ?F) = ''queued''" "Progress (demo_job ?F) = 0"
    by (simp_all add: demo_job_def CreateJob_def Let_def)
  from demo_fileLoop_a obtain results job st where
    r: "fileLoop demo_worker (int (length ?F)) 0 ?F [] (started demo_worker (demo_job ?F))
        \<lparr>store = (demo_store ?F)(''job-1'' \<mapsto> started demo_worker (demo_job ?F)),
         trace = [Update (started demo_worker (demo_job ?F))]\<rparr> = Inr (results, job, st)"
    and j: "Status job = ''running''" "Progress job = 100" "JobID job = ''job-1''"
    and u: "updates (trace st) = [started demo_worker (demo_job ?F), job]"
    by blast
  have sv: "saveResults demo_worker ''job-1'' results = Inr ''/v1/results/job-1_results.json''"
    by (simp add: demo_worker_fields demo_save_def)
  have run: "updates (trace (processJob demo_worker ''job-1'' \<lparr>store = demo_store ?F, trace = []\<rparr>))
      = [started demo_worker (demo_job ?F), job,
         job\<lparr>Status := ''completed'', Progress := 100,
              ResultURLs := [''/v1/results/job-1_results.json''],
              UpdatedAt := clock demo_worker (Suc (length (trace st)))\<rparr>]"
    unfolding processJob_unfold [where s = "demo_store ?F" and jobID = "''job-1''" and w = demo_worker
        and ?job0.0 = "demo_job ?F", OF demo_job_fields(1)] demo_job_fields(2,3) r
    by (simp add: j sv sendCallback_trace u)
  show ?thesis
    by (simp add: registryWrites_def c demo_job_fields run q j)
qed

lemma processJob_abortedWith:
  assumes "s jobID = Some job0" and "JobID job0 = jobID"
    and "Files job0 = pre @ f # post"
    and "\<forall>u\<in>set pre. fileSucceeds w (JobModel job0) u"
    and "fileFailure w (JobModel job0) f = Some (code, err)"
  shows "abortedWith (processJob w jobID \<lparr>store = s, trace = []\<rparr>) jobID (pre @ [f]) code err"
  using processJob_failure [where s = s and jobID = jobID, OF assms]
  by (auto simp: abortedWith_def)

lemma demo_created:
  "CreateJob ''job-1'' 1700000000 1700000000 demo_registry F ''embed-large-512'' []
     = (demo_job F, demo_store F)"
  by (simp add: demo_job_def demo_store_def)

lemma demo_registryWrites:
  "registryWrites w ''job-1'' 1700000000 1700000000 demo_registry F ''embed-large-512'' []
     = demo_job F # updates (trace (processJob w ''job-1'' \<lparr>store = demo_store F, trace = []\<rparr>))"
  by (simp add: registryWrites_def demo_created demo_job_fields)

lemma demo_missing:
  "last (registryWrites demo_worker ''job-1'' 1700000000 1700000000 demo_registry
       [''/data/missing.txt''] ''embed-large-512'' [])
     \<in> set (registryWrites demo_worker ''job-1'' 1700000000 1700000000 demo_registry
       [''/data/missing.txt''] ''embed-large-512'' [])
   \<and> Error (last (registryWrites demo_worker ''job-1'' 1700000000 1700000000 demo_registry
       [''/data/missing.txt''] ''embed-large-512'' []))
     = Some \<lparr>Code = ''download_failed'', Message = ''no such file''\<rparr>"
proof -
  let ?F = "[''/data/missing.txt'']"
  have f: "Files (demo_job ?F) = [] @ ''/data/missing.txt'' # []" by (simp add: demo_job_fields)
  have ff: "fileFailure demo_worker (JobModel (demo_job ?F)) ''/data/missing.txt''
              = Some (''download_failed'', ''no such file'')"
    by (simp add: fileFailure_def demo_worker_fields demo_download_def)
  from processJob_failure [where s = "demo_store ?F" and jobID = "''job-1''" and w = demo_worker,
      OF demo_job_fields(1) demo_job_fields(2) f _ ff]
  obtain jf where
    e: "Error jf = Some \<lparr>Code = ''download_failed'', Message = ''no such file''\<rparr>"
    and ne: "updates (trace (processJob demo_worker ''job-1'' \<lparr>store = demo_store ?F, trace = []\<rparr>)) \<noteq> []"
    and l: "last (updates (trace (processJob demo_worker ''job-1'' \<lparr>store = demo_store ?F, trace = []\<rparr>))) = jf"
    by auto
  show ?thesis
    using e ne l last_in_set [OF ne] by (simp add: demo_registryWrites)
qed

lemma fileLoop_saveResults:
  "fileLoop (w\<lparr>saveResults := sv\<rparr>) n i fs rs jb st = fileLoop w n i fs rs jb st"
proof (induction fs arbitrary: i rs jb st)
  case Nil
  show ?case by simp
next
  case (Cons a fs)
  have f: "failJob (w\<lparr>saveResults := sv\<rparr>) j c e t = failJob w j c e t" for j c e t
    by (simp add: failJob_def writeBack_def)
  have b: "writeBack (w\<lparr>saveResults := sv\<rparr>) j t = writeBack w j t" for j t
    by (simp add: writeBack_def)
  have q: "jobRequest (w\<lparr>saveResults := sv\<rparr>) m fn tx = jobRequest w m fn tx" for m fn tx
    by (simp add: jobRequest_def)
  show ?case
    by (simp add: f b q Cons.IH Let_def split: sum.splits option.splits prod.splits)
qed

lemma disk_full_lifetime:
  "map Status (registryWrites full_disk_worker ''job-1'' 1700000000 1700000000 demo_registry
       [''/data/a.txt''] ''embed-large-512'' [])
     = [''queued'', ''running'', ''running'', ''failed'']
   \<and> map Progress (registryWrites full_disk_worker ''job-1'' 1700000000 1700000000 demo_registry
       [''/data/a.txt''] ''embed-large-512'' [])
     = [0, 0, 100, 100]"
proof -
  let ?F = "[''/data/a.txt'']"
  have q: "Status (demo_job ?F) = ''queued''" "Progress (demo_job ?F) = 0"
    by (simp_all add: demo_job_def CreateJob_def Let_def)
  have w: "fileLoop full_disk_worker n i fs rs jb st = fileLoop demo_worker n i fs rs jb st"
    for n i fs rs jb st
    by (simp add: full_disk_worker_def fileLoop_saveResults)
  have st: "started full_disk_worker jb = started demo_worker jb" for jb
    by (simp add: started_def full_disk_worker_def)
  from demo_fileLoop_a obtain results job st where
    r: "fileLoop demo_worker (int (length ?F)) 0 ?F [] (started demo_worker (demo_job ?F))
        \<lparr>store = (demo_store ?F)(''job-1'' \<mapsto> started demo_worker (demo_job ?F)),
         trace = [Update (started demo_worker (demo_job ?F))]\<rparr> = Inr (results, job, st)"
    and j: "Status job = ''running''" "Progress job = 100" "JobID job = ''job-1''"
    and u: "updates (trace st) = [started demo_worker (demo_job ?F), job]"
    by blast
  have sv: "saveResults full_disk_worker ''job-1'' results = Inl ''no space left on device''"
    by (simp add: full_disk_worker_def save_disk_full_def)
  have run: "updates (trace (processJob full_disk_worker ''job-1'' \<lparr>store = demo_store ?F, trace = []\<rparr>))
      = [started demo_worker (demo_job ?F), job,
         failed job ''storage_failed'' ''no space left on device''
           (clock full_disk_worker (length (trace (emit (Save (JobID job) results) st))))]"
    unfolding processJob_unfold [where s = "demo_store ?F" and jobID = "''job-1''"
        and w = full_disk_worker and ?job0.0 = "demo_job ?F", OF demo_job_fields(1)]
      demo_job_fields(2,3) w st r
    by (simp add: j sv failJob_trace u emit_def)
  show ?thesis
    by (simp add: demo_registryWrites run q j)
qed

lemma last_of_map: "map f xs = ys \<Longrightarrow> ys \<noteq> [] \<Longrightarrow> f (last xs) = last ys \<and> last xs \<in> set xs"
  by (cases "xs = []") (auto simp: last_map)

lemma hd_of_map: "map f xs = ys \<Longrightarrow> ys \<noteq> [] \<Longrightarrow> f (hd xs) = hd ys \<and> hd xs \<in> set xs"
  by (cases xs) auto

section \<open>Failure at a stage (C2)\<close>

text \<open>
  C2. Let the job be in the registry under its id, and let every file before \<open>f\<close> in its
  list succeed. If acquisition, text extraction or embedding fails for \<open>f\<close>, then the run
  of \<open>processJob\<close> leaves the job in the registry with status \<open>failed\<close> and an error whose
  code is \<open>download_failed\<close>, \<open>extraction_failed\<close> or \<open>embedding_failed\<close> respectively
  and whose message is the error's; that record is the last one written back; the
  callback dispatcher is called exactly once, with it; the files attempted are those up
  to \<open>f\<close> and none after it; and no results are saved.
\<close>

theorem processJob_stage_failure:
  assumes "s jobID = Some job0" and "JobID job0 = jobID"
    and "Files job0 = pre @ f # post"
    and "\<forall>u\<in>set pre. fileSucceeds w (JobModel job0) u"
  shows "(\<forall>err. downloadFile w f = Inl err \<longrightarrow>
            abortedWith (processJob w jobID \<lparr>store = s, trace = []\<rparr>) jobID (pre @ [f])
              ''download_failed'' err)
     \<and> (\<forall>content filename err.
            downloadFile w f = Inr (content, filename)
            \<and> extractText w filename content = Inl err \<longrightarrow>
            abortedWith (processJob w jobID \<lparr>store = s, trace = []\<rparr>) jobID (pre @ [f])
              ''extraction_failed'' err)
     \<and> (\<forall>content filename text err.
            downloadFile w f = Inr (content, filename)
            \<and> extractText w filename content = Inr text
            \<and> embed w (jobRequest w (JobModel job0) filename text) = Some (Inl err) \<longrightarrow>
            abortedWith (processJob w jobID \<lparr>store = s, trace = []\<rparr>) jobID (pre @ [f])
              ''embedding_failed'' err)"
proof (intro conjI allI impI)
  fix err assume "downloadFile w f = Inl err"
  then have "fileFailure w (JobModel job0) f = Some (''download_failed'', err)"
    by (simp add: fileFailure_def)
  then show "abortedWith (processJob w jobID \<lparr>store = s, trace = []\<rparr>) jobID (pre @ [f])
              ''download_failed'' err"
    by (rule processJob_abortedWith [where s = s and jobID = jobID, OF assms])
next
  fix content filename err
  assume "downloadFile w f = Inr (content, filename) \<and> extractText w filename content = Inl err"
  then have "fileFailure w (JobModel job0) f = Some (''extraction_failed'', err)"
    by (simp add: fileFailure_def)
  then show "abortedWith (processJob w jobID \<lparr>store = s, trace = []\<rparr>) jobID (pre @ [f])
              ''extraction_failed'' err"
    by (rule processJob_abortedWith [where s = s and jobID = jobID, OF assms])
next
  fix content filename t err
  assume "downloadFile w f = Inr (content, filename)
            \<and> extractText w filename content = Inr t
            \<and> embed w (jobRequest w (JobModel job0) filename t) = Some (Inl err)"
  then have "fileFailure w (JobModel job0) f = Some (''embedding_failed'', err)"
    by (simp add: fileFailure_def)
  then show "abortedWith (processJob w jobID \<lparr>store = s, trace = []\<rparr>) jobID (pre @ [f])
              ''embedding_failed'' err"
    by (rule processJob_abortedWith [where s = s and jobID = jobID, OF assms])
qed

theorem processJob_stage_failure_witness:
  "demo_store [''/data/a.txt'', ''/data/missing.txt'', ''/data/a.txt''] ''job-1''
      = Some (demo_job [''/data/a.txt'', ''/data/missing.txt'', ''/data/a.txt''])
   \<and> JobID (demo_job [''/data/a.txt'', ''/data/missing.txt'', ''/data/a.txt'']) = ''job-1''
   \<and> Files (demo_job [''/data/a.txt'', ''/data/missing.txt'', ''/data/a.txt''])
        = [''/data/a.txt''] @ ''/data/missing.txt'' # [''/data/a.txt'']
   \<and> fileSucceeds demo_worker ''embed-large-512'' ''/data/a.txt''
   \<and> downloadFile demo_worker ''/data/missing.txt'' = Inl ''no such file''
   \<and> abortedWith
        (processJob demo_worker ''job-1''
           \<lparr>store = demo_store [''/data/a.txt'', ''/data/missing.txt'', ''/data/a.txt''], trace = []\<rparr>)
        ''job-1'' [''/data/a.txt'', ''/data/missing.txt''] ''download_failed'' ''no such file''
   \<and> downloadFile demo_worker ''/data/b.exe'' = Inr ([77, 90], ''b.exe'')
   \<and> extractText demo_worker ''b.exe'' [77, 90] = Inl ''unsupported file type: b.exe''
   \<and> abortedWith
        (processJob demo_worker ''job-1'' \<lparr>store = demo_store [''/data/a.txt'', ''/data/b.exe''], trace = []\<rparr>)
        ''job-1'' [''/data/a.txt'', ''/data/b.exe''] ''extraction_failed'' ''unsupported file type: b.exe''
   \<and> downloadFile faulty_worker ''/data/a.txt'' = Inr ([104, 105], ''a.txt'')
   \<and> extractText faulty_worker ''a.txt'' [104, 105] = Inr [104, 105]
   \<and> embed faulty_worker (jobRequest faulty_worker ''embed-large-512'' ''a.txt'' [104, 105])
        = Some (Inl ''model unavailable'')
   \<and> abortedWith
        (processJob faulty_worker ''job-1'' \<lparr>store = demo_store [''/data/a.txt''], trace = []\<rparr>)
        ''job-1'' [''/data/a.txt''] ''embedding_failed'' ''model unavailable''"
proof -
  let ?F1 = "[''/data/a.txt'', ''/data/missing.txt'', ''/data/a.txt'']"
  let ?F2 = "[''/data/a.txt'', ''/data/b.exe'']"
  let ?F3 = "[''/data/a.txt'']"
  have pre: "\<forall>u\<in>set [''/data/a.txt'']. fileSucceeds demo_worker (JobModel (demo_job F)) u" for F
    using demo_a_ok by simp
  have nopre: "\<forall>u\<in>set []. fileSucceeds faulty_worker (JobModel (demo_job ?F3)) u" by simp
  have ok: "fileSucceeds demo_worker ''embed-large-512'' ''/data/a.txt''" by (rule demo_a_ok)
  have f1: "Files (demo_job ?F1) = [''/data/a.txt''] @ ''/data/missing.txt'' # [''/data/a.txt'']"
    and f2: "Files (demo_job ?F2) = [''/data/a.txt''] @ ''/data/b.exe'' # []"
    and f3: "Files (demo_job ?F3) = [] @ ''/data/a.txt'' # []"
    by (simp_all add: demo_job_fields)
  have d1: "downloadFile demo_worker ''/data/missing.txt'' = Inl ''no such file''"
    and d2: "downloadFile demo_worker ''/data/b.exe'' = Inr ([77, 90], ''b.exe'')"
    and x2: "extractText demo_worker ''b.exe'' [77, 90] = Inl ''unsupported file type: b.exe''"
    and d3: "downloadFile faulty_worker ''/data/a.txt'' = Inr ([104, 105], ''a.txt'')"
    and x3: "extractText faulty_worker ''a.txt'' [104, 105] = Inr [104, 105]"
    and e3: "embed faulty_worker (jobRequest faulty_worker (JobModel (demo_job ?F3)) ''a.txt'' [104, 105])
              = Some (Inl ''model unavailable'')"
    by (simp_all add: demo_worker_fields faulty_worker_fields demo_download_def demo_extract_def
        embed_unavailable_def)
  have a1: "abortedWith (processJob demo_worker ''job-1'' \<lparr>store = demo_store ?F1, trace = []\<rparr>)
        ''job-1'' ([''/data/a.txt''] @ [''/data/missing.txt'']) ''download_failed'' ''no such file''"
    using processJob_stage_failure [where s = "demo_store ?F1" and jobID = "''job-1''"
        and w = demo_worker, OF demo_job_fields(1) demo_job_fields(2) f1 pre] d1
    by blast
  have a2: "abortedWith (processJob demo_worker ''job-1'' \<lparr>store = demo_store ?F2, trace = []\<rparr>)
        ''job-1'' ([''/data/a.txt''] @ [''/data/b.exe'']) ''extraction_failed''
        ''unsupported file type: b.exe''"
    using processJob_stage_failure [where s = "demo_store ?F2" and jobID = "''job-1''"
        and w = demo_worker, OF demo_job_fields(1) demo_job_fields(2) f2 pre] d2 x2
    by blast
  have a3: "abortedWith (processJob faulty_worker ''job-1'' \<lparr>store = demo_store ?F3, trace = []\<rparr>)
        ''job-1'' ([] @ [''/data/a.txt'']) ''embedding_failed'' ''model unavailable''"
    using processJob_stage_failure [where s = "demo_store ?F3" and jobID = "''job-1''"
        and w = faulty_worker, OF demo_job_fields(1) demo_job_fields(2) f3 nopre] d3 x3 e3
    by blast
  show ?thesis
    using a1 a2 a3 d1 d2 x2 d3 x3 e3 ok f1
    by (simp add: demo_job_fields)
qed

section \<open>Result URLs and error against the status (C4)\<close>

text \<open>
  C4. Every record stored in the registry over a job's lifetime, by \<open>CreateJob\<close> and by
  each \<open>UpdateJob\<close> of its run, has result URLs if and only if its status is
  \<open>completed\<close> and an error if and only if its status is \<open>failed\<close>; so the two are
  never both populated.
\<close>

theorem registryWrites_fields:
  "\<forall>j\<in>set (registryWrites w uuid c u s files model cb).
      (ResultURLs j \<noteq> [] \<longleftrightarrow> Status j = ''completed'')
    \<and> (Error j \<noteq> None \<longleftrightarrow> Status j = ''failed'')"
proof -
  obtain m us tail where
    ws: "registryWrites w uuid c u s files model cb = created uuid c u files model cb # us @ tail"
    and us: "\<forall>j\<in>set us. Status j = ''running'' \<and> Error j = None \<and> ResultURLs j = []"
    and tl: "runEnds w (created uuid c u files model cb) m tail"
    by (rule registryWrites_shape)
  have "\<forall>j\<in>set tail. (ResultURLs j \<noteq> [] \<longleftrightarrow> Status j = ''completed'')
        \<and> (Error j \<noteq> None \<longleftrightarrow> Status j = ''failed'')"
    using tl by (auto simp: runEnds_def)
  with us show ?thesis by (auto simp: ws)
qed

theorem registryWrites_fields_witness:
  "last (registryWrites demo_worker ''job-1'' 1700000000 1700000000 demo_registry
       [''/data/a.txt''] ''embed-large-512'' [])
     \<in> set (registryWrites demo_worker ''job-1'' 1700000000 1700000000 demo_registry
       [''/data/a.txt''] ''embed-large-512'' [])
   \<and> Status (last (registryWrites demo_worker ''job-1'' 1700000000 1700000000 demo_registry
       [''/data/a.txt''] ''embed-large-512'' [])) = ''completed''
   \<and> ResultURLs (last (registryWrites demo_worker ''job-1'' 1700000000 1700000000 demo_registry
       [''/data/a.txt''] ''embed-large-512'' [])) \<noteq> []
   \<and> Error (last (registryWrites demo_worker ''job-1'' 1700000000 1700000000 demo_registry
       [''/data/a.txt''] ''embed-large-512'' [])) = None
   \<and> Status (last (registryWrites full_disk_worker ''job-1'' 1700000000 1700000000 demo_registry
       [''/data/a.txt''] ''embed-large-512'' [])) = ''failed''
   \<and> Error (last (registryWrites full_disk_worker ''job-1'' 1700000000 1700000000 demo_registry
       [''/data/a.txt''] ''embed-large-512'' [])) \<noteq> None
   \<and> ResultURLs (last (registryWrites full_disk_worker ''job-1'' 1700000000 1700000000 demo_registry
       [''/data/a.txt''] ''embed-large-512'' [])) = []"
proof -
  let ?ws = "registryWrites demo_worker ''job-1'' 1700000000 1700000000 demo_registry
       [''/data/a.txt''] ''embed-large-512'' []"
  let ?fs = "registryWrites full_disk_worker ''job-1'' 1700000000 1700000000 demo_registry
       [''/data/a.txt''] ''embed-large-512'' []"
  note w = registryWrites_fields [of demo_worker "''job-1''" 1700000000 1700000000 demo_registry
       "[''/data/a.txt'']" "''embed-large-512''" "[]"]
  note f = registryWrites_fields [of full_disk_worker "''job-1''" 1700000000 1700000000 demo_registry
       "[''/data/a.txt'']" "''embed-large-512''" "[]"]
  from demo_lifetime have
    l: "Status (last ?ws) = ''completed''" "last ?ws \<in> set ?ws"
    using last_of_map [of Status ?ws] by simp_all
  from disk_full_lifetime have
    fl: "Status (last ?fs) = ''failed''" "last ?fs \<in> set ?fs"
    using last_of_map [of Status ?fs] by simp_all
  from w l have a: "ResultURLs (last ?ws) \<noteq> []" by blast
  from w l have b: "Error (last ?ws) = None" by auto
  from f fl have c: "Error (last ?fs) \<noteq> None" by blast
  from f fl have d: "ResultURLs (last ?fs) = []" by auto
  from l a b fl c d show ?thesis by (intro conjI) assumption+
qed

section \<open>Progress (C1)\<close>

text \<open>
  C1, as the code has it. Over a job's lifetime the progress values stored are
  non-decreasing and lie between 0 and 100; a record stored as \<open>completed\<close> has progress
  100 and a record stored as \<open>queued\<close> has progress 0; a record stored as \<open>failed\<close> with
  progress 100 carries the code \<open>storage_failed\<close>. (Progress 100 is also stored with
  status \<open>running\<close>, by the write that follows the last file.)
\<close>

theorem registryWrites_progress:
  "sorted (map Progress (registryWrites w uuid c u s files model cb))
   \<and> (\<forall>j\<in>set (registryWrites w uuid c u s files model cb).
        0 \<le> Progress j \<and> Progress j \<le> 100
      \<and> (Status j = ''completed'' \<longrightarrow> Progress j = 100)
      \<and> (Status j = ''queued'' \<longrightarrow> Progress j = 0)
      \<and> (Progress j = 100 \<and> Status j = ''failed'' \<longrightarrow>
            (\<exists>err. Error j = Some \<lparr>Code = ''storage_failed'', Message = err\<rparr>)))"
proof -
  let ?n = "int (length files)"
  obtain m us tail where
    ws: "registryWrites w uuid c u s files model cb = created uuid c u files model cb # us @ tail"
    and m: "m \<le> length files"
    and pr: "map Progress us = 0 # progress_from ?n 0 m"
    and us: "\<forall>j\<in>set us. Status j = ''running'' \<and> Error j = None \<and> ResultURLs j = []"
    and tl: "runEnds w (created uuid c u files model cb) m tail"
    by (rule registryWrites_shape)
  let ?ps = "0 # progress_from ?n 0 m"
  from progress_from_bounds [of 0 m ?n] m
  have srt: "sorted ?ps" and bnd: "\<forall>p\<in>set (progress_from ?n 0 m). 0 \<le> p \<and> p \<le> 100"
    by simp_all
  have bnd': "\<forall>p\<in>set ?ps. 0 \<le> p \<and> p \<le> 100" using bnd by simp
  have lst: "0 \<le> last ?ps \<and> last ?ps \<le> 100"
    using bnd' last_in_set [of ?ps] by blast
  have lt: "last ?ps < 100" if "m < length files"
    using progress_last_lt [of m ?n] that by simp
  have us_bnd: "\<forall>j\<in>set us. 0 \<le> Progress j \<and> Progress j \<le> 100"
  proof
    fix j assume "j \<in> set us"
    then have "Progress j \<in> set (map Progress us)" by simp
    then have "Progress j \<in> set (0 # progress_from ?n 0 m)" by (simp only: pr)
    with bnd' show "0 \<le> Progress j \<and> Progress j \<le> 100" by blast
  qed
  have tail_ok: "sorted (?ps @ map Progress tail)
      \<and> (\<forall>j\<in>set tail. 0 \<le> Progress j \<and> Progress j \<le> 100
           \<and> (Status j = ''completed'' \<longrightarrow> Progress j = 100)
           \<and> (Status j = ''queued'' \<longrightarrow> Progress j = 0)
           \<and> (Progress j = 100 \<and> Status j = ''failed'' \<longrightarrow>
                 (\<exists>err. Error j = Some \<lparr>Code = ''storage_failed'', Message = err\<rparr>)))"
  proof -
    from tl consider (none) "tail = []"
      | (stage) jf where "tail = [jf]" "m < length files" "Status jf = ''failed''"
          "Progress jf = last ?ps"
      | (storage) jf err where "tail = [jf]" "Status jf = ''failed''"
          "Error jf = Some \<lparr>Code = ''storage_failed'', Message = err\<rparr>" "Progress jf = last ?ps"
      | (finish) jc where "tail = [jc]" "Status jc = ''completed''" "Progress jc = 100"
      unfolding runEnds_def created_fields by blast
    then show ?thesis
    proof cases
      case none
      with srt show ?thesis by simp
    next
      case stage
      have "sorted (?ps @ [last ?ps])" using srt by (intro sorted_snoc_last) simp_all
      with stage lst lt [OF stage(2)] show ?thesis by simp
    next
      case storage
      have "sorted (?ps @ [last ?ps])" using srt by (intro sorted_snoc_last) simp_all
      with storage lst show ?thesis by simp
    next
      case finish
      have "sorted (?ps @ [100])" using srt bnd' by (intro sorted_snoc_top) simp_all
      with finish show ?thesis by simp
    qed
  qed
  have "map Progress (registryWrites w uuid c u s files model cb)
          = 0 # (?ps @ map Progress tail)"
    by (simp add: ws pr)
  moreover have "sorted (0 # (?ps @ map Progress tail))"
    using tail_ok by simp
  ultimately have s: "sorted (map Progress (registryWrites w uuid c u s files model cb))"
    by (simp only:)
  have "\<forall>j\<in>set (registryWrites w uuid c u s files model cb).
        0 \<le> Progress j \<and> Progress j \<le> 100
      \<and> (Status j = ''completed'' \<longrightarrow> Progress j = 100)
      \<and> (Status j = ''queued'' \<longrightarrow> Progress j = 0)
      \<and> (Progress j = 100 \<and> Status j = ''failed'' \<longrightarrow>
            (\<exists>err. Error j = Some \<lparr>Code = ''storage_failed'', Message = err\<rparr>))"
    using us us_bnd tail_ok by (auto simp: ws)
  with s show ?thesis by blast
qed

theorem registryWrites_progress_witness:
  "sorted (map Progress (registryWrites demo_worker ''job-1'' 1700000000 1700000000 demo_registry
       [''/data/a.txt''] ''embed-large-512'' []))
   \<and> last (registryWrites demo_worker ''job-1'' 1700000000 1700000000 demo_registry
       [''/data/a.txt''] ''embed-large-512'' [])
     \<in> set (registryWrites demo_worker ''job-1'' 1700000000 1700000000 demo_registry
       [''/data/a.txt''] ''embed-large-512'' [])
   \<and> Status (last (registryWrites demo_worker ''job-1'' 1700000000 1700000000 demo_registry
       [''/data/a.txt''] ''embed-large-512'' [])) = ''completed''
   \<and> Progress (last (registryWrites demo_worker ''job-1'' 1700000000 1700000000 demo_registry
       [''/data/a.txt''] ''embed-large-512'' [])) = 100
   \<and> Status (hd (registryWrites demo_worker ''job-1'' 1700000000 1700000000 demo_registry
       [''/data/a.txt''] ''embed-large-512'' [])) = ''queued''
   \<and> Progress (hd (registryWrites demo_worker ''job-1'' 1700000000 1700000000 demo_registry
       [''/data/a.txt''] ''embed-large-512'' [])) = 0
   \<and> Status (last (registryWrites full_disk_worker ''job-1'' 1700000000 1700000000 demo_registry
       [''/data/a.txt''] ''embed-large-512'' [])) = ''failed''
   \<and> Progress (last (registryWrites full_disk_worker ''job-1'' 1700000000 1700000000 demo_registry
       [''/data/a.txt''] ''embed-large-512'' [])) = 100
   \<and> (\<exists>err. Error (last (registryWrites full_disk_worker ''job-1'' 1700000000 1700000000
          demo_registry [''/data/a.txt''] ''embed-large-512'' []))
        = Some \<lparr>Code = ''storage_failed'', Message = err\<rparr>)"
proof -
  let ?ws = "registryWrites demo_worker ''job-1'' 1700000000 1700000000 demo_registry
       [''/data/a.txt''] ''embed-large-512'' []"
  let ?fs = "registryWrites full_disk_worker ''job-1'' 1700000000 1700000000 demo_registry
       [''/data/a.txt''] ''embed-large-512'' []"
  note w = registryWrites_progress [of demo_worker "''job-1''" 1700000000 1700000000 demo_registry
       "[''/data/a.txt'']" "''embed-large-512''" "[]"]
  note f = registryWrites_progress [of full_disk_worker "''job-1''" 1700000000 1700000000 demo_registry
       "[''/data/a.txt'']" "''embed-large-512''" "[]"]
  from demo_lifetime have
    l: "Status (last ?ws) = ''completed''" "last ?ws \<in> set ?ws"
    and h: "Status (hd ?ws) = ''queued''" "hd ?ws \<in> set ?ws"
    using last_of_map [of Status ?ws] hd_of_map [of Status ?ws] by simp_all
  from disk_full_lifetime have
    fl: "Status (last ?fs) = ''failed''" "last ?fs \<in> set ?fs" "Progress (last ?fs) = 100"
    using last_of_map [of Status ?fs] last_of_map [of Progress ?fs] by simp_all
  from w have s: "sorted (map Progress ?ws)" by blast
  from w l have p: "Progress (last ?ws) = 100" by blast
  from w h have p0: "Progress (hd ?ws) = 0" by blast
  from f fl have e: "\<exists>err. Error (last ?fs) = Some \<lparr>Code = ''storage_failed'', Message = err\<rparr>"
    by blast
  from s l p h p0 fl e show ?thesis by (intro conjI) assumption+
qed

text \<open>
  C1 as stated fails: for a job with one file that is processed and saved, the
  registry writes are \<open>queued/0\<close>, \<open>running/0\<close>, \<open>running/100\<close>, \<open>completed/100\<close>: the
  third stores progress 100 together with status \<open>running\<close>.
\<close>

theorem registryWrites_progress_counterexample:
  "map Status (registryWrites demo_worker ''job-1'' 1700000000 1700000000 demo_registry
       [''/data/a.txt''] ''embed-large-512'' [])
     = [''queued'', ''running'', ''running'', ''completed'']
   \<and> map Progress (registryWrites demo_worker ''job-1'' 1700000000 1700000000 demo_registry
       [''/data/a.txt''] ''embed-large-512'' [])
     = [0, 0, 100, 100]"
  by (rule demo_lifetime)

section \<open>The embedding_failed exit is unreachable (C10)\<close>

text \<open>
  C10. \<open>GenerateEmbeddings\<close> never returns an error. Hence, for the worker whose embedding
  service it is, no record stored in the registry over a job's lifetime carries the error
  code \<open>embedding_failed\<close>.
\<close>

theorem embedding_failed_unreachable:
  "(\<forall>err. GenerateEmbeddings h cfg req \<noteq> Some (Inl err))
   \<and> (\<forall>j\<in>set (registryWrites (NewWorker h cfg download extract save clk) uuid c u s files model cb).
        \<forall>e. Error j = Some e \<longrightarrow> Code e \<noteq> ''embedding_failed'')"
proof (intro conjI allI)
  fix err show "GenerateEmbeddings h cfg req \<noteq> Some (Inl err)"
    by (rule GenerateEmbeddings_no_error)
next
  let ?w = "NewWorker h cfg download extract save clk"
  obtain m us tail where
    ws: "registryWrites ?w uuid c u s files model cb = created uuid c u files model cb # us @ tail"
    and us: "\<forall>j\<in>set us. Status j = ''running'' \<and> Error j = None \<and> ResultURLs j = []"
    and tl: "runEnds ?w (created uuid c u files model cb) m tail"
    by (rule registryWrites_shape)
  have e: "embed ?w = GenerateEmbeddings h cfg" by (simp add: NewWorker_def)
  have "\<forall>j\<in>set tail. \<forall>e. Error j = Some e \<longrightarrow> Code e \<noteq> ''embedding_failed''"
    using tl by (auto simp: runEnds_def e GenerateEmbeddings_no_error)
  with us
  show "\<forall>j\<in>set (registryWrites ?w uuid c u s files model cb).
        \<forall>e. Error j = Some e \<longrightarrow> Code e \<noteq> ''embedding_failed''"
    by (auto simp: ws)
qed

theorem embedding_failed_unreachable_witness:
  "last (registryWrites demo_worker ''job-1'' 1700000000 1700000000 demo_registry
       [''/data/missing.txt''] ''embed-large-512'' [])
     \<in> set (registryWrites demo_worker ''job-1'' 1700000000 1700000000 demo_registry
       [''/data/missing.txt''] ''embed-large-512'' [])
   \<and> Error (last (registryWrites demo_worker ''job-1'' 1700000000 1700000000 demo_registry
       [''/data/missing.txt''] ''embed-large-512'' []))
     = Some \<lparr>Code = ''download_failed'', Message = ''no such file''\<rparr>
   \<and> Code \<lparr>Code = ''download_failed'', Message = ''no such file''\<rparr> \<noteq> ''embedding_failed''
   \<and> GenerateEmbeddings (real_host remote_down) (demo_config ''mock'') (demo_request ''split'')
        \<noteq> Some (Inl ''model unavailable'')"
proof -
  let ?ws = "registryWrites demo_worker ''job-1'' 1700000000 1700000000 demo_registry
       [''/data/missing.txt''] ''embed-large-512'' []"
  note t = embedding_failed_unreachable [of "real_host remote_down" "demo_config ''mock''"
      "demo_request ''split''" demo_download demo_extract demo_save demo_clock "''job-1''"
      1700000000 1700000000 demo_registry "[''/data/missing.txt'']" "''embed-large-512''" "[]",
      folded demo_worker_def]
  from t demo_missing
  have "Code \<lparr>Code = ''download_failed'', Message = ''no such file''\<rparr> \<noteq> ''embedding_failed''"
    by blast
  moreover from t
  have "GenerateEmbeddings (real_host remote_down) (demo_config ''mock'') (demo_request ''split'')
        \<noteq> Some (Inl ''model unavailable'')"
    by blast
  ultimately show ?thesis using demo_missing by (intro conjI) (elim conjE, assumption)+
qed


end
